theory Spec2Isabelle
  imports Complex_Main
begin

section \<open>JavaScript values\<close>

text \<open>
  The handlers of both components work on untyped JavaScript values: the result of
  \<^verbatim>\<open>JSON.parse\<close>, the values kept in React state, the objects handed to
  \<^verbatim>\<open>JSON.stringify\<close>. A finite number is modelled by the real it denotes (the two zeros
  are not told apart); \<open>JInfinity\<close> and \<open>JNegInfinity\<close> are the two infinities and \<open>JNaN\<close>
  is the not-a-number value. An object is the list of its own properties in insertion
  order, each key once.
\<close>

datatype jsval =
    JUndefined
  | JNull
  | JBool bool
  | JNum real
  | JInfinity
  | JNegInfinity
  | JNaN
  | JStr string
  | JArr "jsval list"
  | JObj "(string \<times> jsval) list"

datatype error = SyntaxError | TypeError | InvalidStateError

text \<open>
  Property read \<^verbatim>\<open>v.p\<close>: a \<^verbatim>\<open>TypeError\<close> on \<^verbatim>\<open>undefined\<close> and \<^verbatim>\<open>null\<close>, the own
  property of an object or \<^verbatim>\<open>undefined\<close>. The sources read only the properties
  \<^verbatim>\<open>name\<close>, \<^verbatim>\<open>data\<close>, \<^verbatim>\<open>sentAt\<close>, \<^verbatim>\<open>level\<close> and \<^verbatim>\<open>settings\<close>, which no primitive, array
  or prototype carries.
\<close>

fun js_get :: "jsval \<Rightarrow> string \<Rightarrow> error + jsval" where
  "js_get JUndefined p = Inl TypeError"
| "js_get JNull p = Inl TypeError"
| "js_get (JObj kvs) p = Inr (case map_of kvs p of None \<Rightarrow> JUndefined | Some v \<Rightarrow> v)"
| "js_get v p = Inr JUndefined"

text \<open>Truthiness, as an \<^verbatim>\<open>if (v)\<close> tests it.\<close>

fun truthy :: "jsval \<Rightarrow> bool" where
  "truthy JUndefined = False"
| "truthy JNull = False"
| "truthy (JBool b) = b"
| "truthy (JNum x) = (x \<noteq> 0)"
| "truthy JInfinity = True"
| "truthy JNegInfinity = True"
| "truthy JNaN = False"
| "truthy (JStr s) = (s \<noteq> [])"
| "truthy (JArr xs) = True"
| "truthy (JObj kvs) = True"

text \<open>
  Numeric coercion of an operand of \<^verbatim>\<open>-\<close>. On the primitives it is fixed by the
  language; on strings, arrays and objects it goes through the runtime's string parsing
  and \<^verbatim>\<open>ToPrimitive\<close> (which can throw), taken as the parameter \<open>conv\<close>.
\<close>

fun ToNumber :: "(jsval \<Rightarrow> error + jsval) \<Rightarrow> jsval \<Rightarrow> error + jsval" where
  "ToNumber conv JUndefined = Inr JNaN"
| "ToNumber conv JNull = Inr (JNum 0)"
| "ToNumber conv (JBool b) = Inr (JNum (if b then 1 else 0))"
| "ToNumber conv (JNum x) = Inr (JNum x)"
| "ToNumber conv JInfinity = Inr JInfinity"
| "ToNumber conv JNegInfinity = Inr JNegInfinity"
| "ToNumber conv JNaN = Inr JNaN"
| "ToNumber conv v = conv v"

text \<open>
  The numbers of the language are the IEEE 754 binary64 values, and \<^verbatim>\<open>a - b\<close> is the
  exact difference rounded to the nearest of them. Around a real \<open>x\<close> they lie
  \<open>2 ^ (e - 52)\<close> apart, where \<open>e\<close> is the binary exponent of \<open>\<bar>x\<bar>\<close> kept within \<open>-1022\<close> and
  \<open>1023\<close>: \<open>halvings\<close> counts how often a real of at least \<open>1\<close> can be halved before it is
  below \<open>2\<close>, \<open>doublings\<close> how often a smaller one is doubled before it reaches \<open>1\<close>.
  Only the subtraction of the two pong handlers is rounded this way: \<^verbatim>\<open>computeSpeed\<close>
  subtracts, and the dummy battery level adds and multiplies, over the reals.
\<close>

primrec halvings :: "nat \<Rightarrow> real \<Rightarrow> nat" where
  "halvings 0 x = 0"
| "halvings (Suc n) x = (if x < 2 then 0 else Suc (halvings n (x / 2)))"

primrec doublings :: "nat \<Rightarrow> real \<Rightarrow> nat" where
  "doublings 0 x = 0"
| "doublings (Suc n) x = (if 1 \<le> x then 0 else Suc (doublings n (2 * x)))"

definition exponent :: "real \<Rightarrow> int" where
  "exponent x = (if 1 \<le> x then int (halvings 1023 x) else - int (doublings 1022 x))"

definition quantum :: "real \<Rightarrow> real" where
  "quantum x =
     (if 52 \<le> exponent \<bar>x\<bar> then 2 ^ nat (exponent \<bar>x\<bar> - 52)
      else 1 / 2 ^ nat (52 - exponent \<bar>x\<bar>))"

text \<open>Rounding to the nearest integer, a tie to the even one.\<close>

definition round_even :: "real \<Rightarrow> int" where
  "round_even y =
     (if y - of_int \<lfloor>y\<rfloor> < 1 / 2 then \<lfloor>y\<rfloor>
      else if 1 / 2 < y - of_int \<lfloor>y\<rfloor> then \<lfloor>y\<rfloor> + 1
      else if even \<lfloor>y\<rfloor> then \<lfloor>y\<rfloor>
      else \<lfloor>y\<rfloor> + 1)"

text \<open>
  The binary64 value nearest to a real: the nearest multiple of the spacing, an infinity
  when that multiple has left the finite range.
\<close>

definition binary64 :: "real \<Rightarrow> jsval" where
  "binary64 x =
     (if 2 ^ 1024 \<le> of_int (round_even (x / quantum x)) * quantum x then JInfinity
      else if of_int (round_even (x / quantum x)) * quantum x \<le> - (2 ^ 1024) then JNegInfinity
      else JNum (of_int (round_even (x / quantum x)) * quantum x))"

text \<open>\<^verbatim>\<open>a - b\<close> on two numbers; an operand that is not a number gives \<^verbatim>\<open>NaN\<close>.\<close>

fun num_minus :: "jsval \<Rightarrow> jsval \<Rightarrow> jsval" where
  "num_minus (JNum a) (JNum b) = binary64 (a - b)"
| "num_minus (JNum a) JInfinity = JNegInfinity"
| "num_minus (JNum a) JNegInfinity = JInfinity"
| "num_minus JInfinity (JNum b) = JInfinity"
| "num_minus JInfinity JNegInfinity = JInfinity"
| "num_minus JNegInfinity (JNum b) = JNegInfinity"
| "num_minus JNegInfinity JInfinity = JNegInfinity"
| "num_minus a b = JNaN"

definition js_minus :: "(jsval \<Rightarrow> error + jsval) \<Rightarrow> jsval \<Rightarrow> jsval \<Rightarrow> error + jsval" where
  "js_minus conv a b =
     (case ToNumber conv a of
        Inl e \<Rightarrow> Inl e
      | Inr x \<Rightarrow> (case ToNumber conv b of Inl e \<Rightarrow> Inl e | Inr y \<Rightarrow> Inr (num_minus x y)))"

section \<open>The status component: action values and speed\<close>

text \<open>
  \<^verbatim>\<open>WebSocketStatus\<close> reads the gamepad context: the table \<^verbatim>\<open>mappings\<close> from action key
  to binding, and the two samplers \<^verbatim>\<open>isActionActive\<close> and \<^verbatim>\<open>getAxisValueForAction\<close>.
  The context itself is not part of the sources at hand, so the three are parameters:
  a binding may be missing (\<open>None\<close>), an axis read may be \<^verbatim>\<open>undefined\<close> (\<open>None\<close>).
\<close>

record mapping =
  type :: string
  index :: int

type_synonym mappings = "string \<Rightarrow> mapping option"

text \<open>\<^verbatim>\<open>getActionValue\<close>, lines 86 to 106 of the status component.\<close>

definition getActionValue ::
  "mappings \<Rightarrow> (string \<Rightarrow> bool) \<Rightarrow> (string \<Rightarrow> real option) \<Rightarrow> string \<Rightarrow> jsval" where
  "getActionValue mappings isActionActive getAxisValueForAction actionKey =
     (case mappings actionKey of
        None \<Rightarrow>
          (if actionKey = ''accelerate'' \<or> actionKey = ''brake'' then JBool False else JNum 0)
      | Some m \<Rightarrow>
          if index m = -1 then
            (if actionKey = ''accelerate'' \<or> actionKey = ''brake'' then JBool False else JNum 0)
          else if type m = ''button'' then JBool (isActionActive actionKey)
          else if type m = ''axis'' then
            (case getAxisValueForAction actionKey of None \<Rightarrow> JNum 0 | Some v \<Rightarrow> JNum v)
          else
            (if actionKey = ''accelerate'' \<or> actionKey = ''brake'' then JBool False else JNum 0))"

text \<open>The two closures of \<^verbatim>\<open>computeSpeed\<close>, lines 113 to 151, and their difference.\<close>

definition accelerateValue ::
  "mappings \<Rightarrow> (string \<Rightarrow> bool) \<Rightarrow> (string \<Rightarrow> real option) \<Rightarrow> real" where
  "accelerateValue mappings isActionActive getAxisValueForAction =
     (case mappings ''accelerate'' of
        None \<Rightarrow> 0
      | Some m \<Rightarrow>
          if index m = -1 then 0
          else if type m = ''button'' then (if isActionActive ''accelerate'' then 1 else 0)
          else if type m = ''axis'' then
            (case getAxisValueForAction ''accelerate'' of None \<Rightarrow> 0 | Some v \<Rightarrow> v)
          else 0)"

definition brakeValue ::
  "mappings \<Rightarrow> (string \<Rightarrow> bool) \<Rightarrow> (string \<Rightarrow> real option) \<Rightarrow> real" where
  "brakeValue mappings isActionActive getAxisValueForAction =
     (case mappings ''brake'' of
        None \<Rightarrow> 0
      | Some m \<Rightarrow>
          if index m = -1 then 0
          else if type m = ''button'' then (if isActionActive ''brake'' then 1 else 0)
          else if type m = ''axis'' then
            (case getAxisValueForAction ''brake'' of None \<Rightarrow> 0 | Some v \<Rightarrow> v)
          else 0)"

definition computeSpeed ::
  "mappings \<Rightarrow> (string \<Rightarrow> bool) \<Rightarrow> (string \<Rightarrow> real option) \<Rightarrow> real" where
  "computeSpeed mappings isActionActive getAxisValueForAction =
     accelerateValue mappings isActionActive getAxisValueForAction
       - brakeValue mappings isActionActive getAxisValueForAction"

section \<open>The runtime\<close>

text \<open>
  What the browser supplies and the sources only call: \<^verbatim>\<open>JSON.parse\<close> (\<open>None\<close> when
  it throws its \<^verbatim>\<open>SyntaxError\<close>), the coercion \<open>conv\<close> above, whether the \<^verbatim>\<open>WebSocket\<close>
  constructor accepts a URL (it throws a \<^verbatim>\<open>SyntaxError\<close> otherwise), and
  \<^verbatim>\<open>window.location.hostname\<close>.
\<close>

record runtime =
  JSON_parse :: "string \<Rightarrow> jsval option"
  conv :: "jsval \<Rightarrow> error + jsval"
  url_ok :: "string \<Rightarrow> bool"
  hostname :: string

definition seq_err :: "error + 'a \<Rightarrow> ('a \<Rightarrow> error + 'b) \<Rightarrow> error + 'b" where
  "seq_err m f = (case m of Inl e \<Rightarrow> Inl e | Inr x \<Rightarrow> f x)"

text \<open>\<^verbatim>\<open>Math.round\<close>, and \<^verbatim>\<open>s.substring(a, b)\<close> for \<open>a \<le> b\<close>.\<close>

definition Math_round :: "real \<Rightarrow> real" where
  "Math_round x = of_int \<lfloor>x + 1 / 2\<rfloor>"

definition substring :: "nat \<Rightarrow> nat \<Rightarrow> string \<Rightarrow> string" where
  "substring a b s = take (b - a) (drop a s)"

text \<open>
  \<^verbatim>\<open>s.trim()\<close> on the ASCII white space (a \<open>char\<close> is a byte; the white space beyond
  ASCII that \<^verbatim>\<open>trim\<close> also strips is not covered).
\<close>

definition is_space :: "char \<Rightarrow> bool" where
  "is_space c = (c \<in> set [CHR '' '', CHR 0x09, CHR 0x0A, CHR 0x0B, CHR 0x0C, CHR 0x0D])"

definition js_trim :: "string \<Rightarrow> string" where
  "js_trim s = rev (dropWhile is_space (rev (dropWhile is_space s)))"

text \<open>An object literal with a spread: a later key replaces the value of an earlier one in place.\<close>

fun obj_put :: "string \<Rightarrow> jsval \<Rightarrow> (string \<times> jsval) list \<Rightarrow> (string \<times> jsval) list" where
  "obj_put k v [] = [(k, v)]"
| "obj_put k v ((k', v') # kvs) =
     (if k' = k then (k, v) # kvs else (k', v') # obj_put k v kvs)"

definition envelope :: "string \<Rightarrow> jsval \<Rightarrow> real \<Rightarrow> jsval" where
  "envelope name payload createdAt =
     JObj [(''name'', JStr name), (''data'', payload), (''createdAt'', JNum createdAt)]"

section \<open>The connection provider\<close>

datatype ready_state = CONNECTING | OPEN | CLOSING | CLOSED

datatype ws_status = Connecting | Connected | Disconnected

datatype robot_command =
    restart_robot
  | stop_robot
  | restart_all_services
  | restart_websocket
  | restart_web_server
  | restart_python_service
  | restart_camera_feed
  | check_for_updates
  | emergency_stop
  | clear_emergency

fun command_name :: "robot_command \<Rightarrow> string" where
  "command_name restart_robot = ''restart_robot''"
| "command_name stop_robot = ''stop_robot''"
| "command_name restart_all_services = ''restart_all_services''"
| "command_name restart_websocket = ''restart_websocket''"
| "command_name restart_web_server = ''restart_web_server''"
| "command_name restart_python_service = ''restart_python_service''"
| "command_name restart_camera_feed = ''restart_camera_feed''"
| "command_name check_for_updates = ''check_for_updates''"
| "command_name emergency_stop = ''emergency_stop''"
| "command_name clear_emergency = ''clear_emergency''"

text \<open>
  A \<^verbatim>\<open>WebSocket\<close> object: its \<^verbatim>\<open>readyState\<close>, its URL, and what the handlers installed
  on it close over besides the socket itself: the value the state \<^verbatim>\<open>socket\<close> had in the
  render whose effect created it (\<^verbatim>\<open>requestBatteryLevel\<close>, called in \<^verbatim>\<open>onopen\<close>, tests
  that value). Sockets are named by their position in the list of all sockets created.
\<close>

record websocket =
  readyState :: ready_state
  url :: string
  render_socket :: "nat option"

text \<open>An interval registered with \<^verbatim>\<open>setInterval\<close>: the socket its callback pings, its delay.\<close>

record interval =
  pings :: nat
  delay :: nat

text \<open>
  The external sinks, in call order: \<^verbatim>\<open>console.error\<close>, \<^verbatim>\<open>logError\<close>,
  \<^verbatim>\<open>trackWsMessage\<close> and \<^verbatim>\<open>trackWsConnection\<close> of the debug state. \<^verbatim>\<open>console.log\<close> lines
  are diagnostics only and are left out.
\<close>

datatype log_arg =
    LStr string
  | LVal jsval
  | LErr error
  | LReady "ready_state option"

datatype sink_entry =
    ConsoleError string log_arg
  | LogError string "(string \<times> log_arg) list"
  | TrackWsMessage string jsval
  | TrackWsConnection string

text \<open>
  The state of \<^verbatim>\<open>WebSocketProvider\<close>: the React state and refs of lines 179 to 195,
  \<open>effect_ws\<close> (the \<^verbatim>\<open>ws\<close> of the connection effect whose cleanup is pending), and the
  world the component acts on: the sockets, the registered intervals, the frames
  transmitted (\<open>wire\<close>: the socket and the object handed to \<^verbatim>\<open>JSON.stringify\<close>), the sinks
  and the custom events dispatched on \<^verbatim>\<open>window\<close>.
\<close>

record provider =
  status :: ws_status
  socket :: "nat option"
  reconnectTrigger :: nat
  pingTime :: jsval
  customWsUrl :: "string option"
  customCameraUrl :: "string option"
  batteryLevel :: jsval
  sensorData :: jsval
  cameraStatus :: jsval
  settings :: jsval
  commandResponse :: jsval
  pingIntervalRef :: "nat option"
  socketRef :: "nat option"
  effect_ws :: "nat option"
  socks :: "websocket list"
  timers :: "(nat \<times> interval) list"
  next_handle :: nat
  wire :: "(nat \<times> jsval) list"
  debug :: "sink_entry list"
  events :: "(string \<times> jsval) list"

definition init :: provider where
  "init = \<lparr>status = Connecting, socket = None, reconnectTrigger = 0, pingTime = JNull,
     customWsUrl = None, customCameraUrl = None, batteryLevel = JNull, sensorData = JNull,
     cameraStatus = JNull, settings = JNull, commandResponse = JNull,
     pingIntervalRef = None, socketRef = None, effect_ws = None, socks = [], timers = [],
     next_handle = 1, wire = [], debug = [], events = []\<rparr>"

subsection \<open>Sockets and intervals\<close>

definition ready :: "provider \<Rightarrow> nat \<Rightarrow> ready_state" where
  "ready s w = readyState (socks s ! w)"

text \<open>
  \<^verbatim>\<open>ws.send\<close>: an \<^verbatim>\<open>InvalidStateError\<close> while connecting, a transmitted frame when open;
  a closing or closed socket discards the data.
\<close>

definition ws_send :: "nat \<Rightarrow> jsval \<Rightarrow> provider \<Rightarrow> error + provider" where
  "ws_send w msg s =
     (case ready s w of
        CONNECTING \<Rightarrow> Inl InvalidStateError
      | OPEN \<Rightarrow> Inr (s\<lparr>wire := wire s @ [(w, msg)]\<rparr>)
      | CLOSING \<Rightarrow> Inr s
      | CLOSED \<Rightarrow> Inr s)"

definition set_ready :: "nat \<Rightarrow> ready_state \<Rightarrow> provider \<Rightarrow> provider" where
  "set_ready w r s = s\<lparr>socks := (socks s)[w := (socks s ! w)\<lparr>readyState := r\<rparr>]\<rparr>"

text \<open>The guarded \<^verbatim>\<open>close()\<close> of lines 205 to 208, 216 to 219 and 381 to 384.\<close>

definition close_if_live :: "nat \<Rightarrow> provider \<Rightarrow> provider" where
  "close_if_live w s =
     (if ready s w = OPEN \<or> ready s w = CONNECTING then set_ready w CLOSING s else s)"

definition clearInterval :: "nat \<Rightarrow> provider \<Rightarrow> provider" where
  "clearInterval h s = s\<lparr>timers := filter (\<lambda>t. fst t \<noteq> h) (timers s)\<rparr>"

text \<open>\<^verbatim>\<open>if (pingIntervalRef.current) { clearInterval(...); pingIntervalRef.current = null; }\<close>\<close>

definition clear_ping :: "provider \<Rightarrow> provider" where
  "clear_ping s =
     (case pingIntervalRef s of
        None \<Rightarrow> s
      | Some h \<Rightarrow> (clearInterval h s)\<lparr>pingIntervalRef := None\<rparr>)"

definition track :: "sink_entry \<Rightarrow> provider \<Rightarrow> provider" where
  "track e s = s\<lparr>debug := debug s @ [e]\<rparr>"

text \<open>\<^verbatim>\<open>socket.send(JSON.stringify(m)); trackWsMessage("sent", m)\<close>\<close>

definition send_tracked :: "nat \<Rightarrow> jsval \<Rightarrow> provider \<Rightarrow> error + provider" where
  "send_tracked w msg s = map_sum id (track (TrackWsMessage ''sent'' msg)) (ws_send w msg s)"

text \<open>The test \<^verbatim>\<open>sk && sk.readyState === WebSocket.OPEN\<close> on a socket value \<open>sk\<close>.\<close>

definition open_socket :: "provider \<Rightarrow> nat option \<Rightarrow> nat option" where
  "open_socket s sk =
     (case sk of None \<Rightarrow> None | Some w \<Rightarrow> if ready s w = OPEN then Some w else None)"

text \<open>\<^verbatim>\<open>socket?.readyState\<close>\<close>

definition socket_readyState :: "provider \<Rightarrow> log_arg" where
  "socket_readyState s = LReady (map_option (ready s) (socket s))"

subsection \<open>connect, disconnect and the connection effect\<close>

definition disconnect :: "provider \<Rightarrow> provider" where
  "disconnect s = (case socketRef s of None \<Rightarrow> s | Some w \<Rightarrow> close_if_live w s)"

text \<open>The cleanup the effect returns, lines 375 to 385.\<close>

definition effect_cleanup :: "provider \<Rightarrow> provider" where
  "effect_cleanup s =
     (case effect_ws s of None \<Rightarrow> s | Some w \<Rightarrow> close_if_live w (clear_ping s))"

definition wsUrl :: "runtime \<Rightarrow> provider \<Rightarrow> string" where
  "wsUrl rt s =
     (case customWsUrl s of
        None \<Rightarrow> ''ws://'' @ hostname rt @ '':3001/ws''
      | Some u \<Rightarrow>
          if u \<noteq> [] \<and> js_trim u \<noteq> [] then u else ''ws://'' @ hostname rt @ '':3001/ws'')"

text \<open>
  The body of the effect, lines 214 to 241: the cleanup of an existing socket, the
  choice of the URL, and the new socket, made known by \<^verbatim>\<open>setSocket\<close> and
  \<^verbatim>\<open>socketRef\<close> (the handlers installed on it are the functions below). \<^verbatim>\<open>socket\<close> is
  the state of the render the effect belongs to; the new socket's handlers close over it.
\<close>

definition cleanup_existing :: "provider \<Rightarrow> provider" where
  "cleanup_existing s =
     (case socket s of None \<Rightarrow> s | Some k \<Rightarrow> clear_ping (close_if_live k s))"

definition new_WebSocket :: "string \<Rightarrow> provider \<Rightarrow> provider" where
  "new_WebSocket u s =
     s\<lparr>socks := socks s @ [\<lparr>readyState = CONNECTING, url = u, render_socket = socket s\<rparr>],
       socket := Some (length (socks s)),
       socketRef := Some (length (socks s)),
       effect_ws := Some (length (socks s))\<rparr>"

definition effect_body :: "runtime \<Rightarrow> provider \<Rightarrow> error + provider" where
  "effect_body rt s =
     (if url_ok rt (wsUrl rt s)
      then Inr (new_WebSocket (wsUrl rt s) ((cleanup_existing s)\<lparr>status := Connecting\<rparr>))
      else Inl SyntaxError)"

text \<open>
  A change of \<^verbatim>\<open>reconnectTrigger\<close> or \<^verbatim>\<open>customWsUrl\<close> renders again: the pending cleanup
  runs, then the effect.
\<close>

definition rerun_effect :: "runtime \<Rightarrow> provider \<Rightarrow> error + provider" where
  "rerun_effect rt s = effect_body rt (effect_cleanup s)"

definition connect :: "runtime \<Rightarrow> provider \<Rightarrow> error + provider" where
  "connect rt s = rerun_effect rt (s\<lparr>reconnectTrigger := reconnectTrigger s + 1\<rparr>)"

definition setCustomWsUrl :: "runtime \<Rightarrow> string option \<Rightarrow> provider \<Rightarrow> error + provider" where
  "setCustomWsUrl rt u s =
     (if customWsUrl s = u then Inr s else rerun_effect rt (s\<lparr>customWsUrl := u\<rparr>))"

subsection \<open>The command functions\<close>

text \<open>
  Each takes the clock readings of its \<^verbatim>\<open>Date.now()\<close> calls in call order.
  \<^verbatim>\<open>requestBatteryLevel\<close> also takes the draw \<open>rnd\<close> of \<^verbatim>\<open>Math.random()\<close>, and is given
  the socket value \<open>sk\<close> its closure holds: the current state for a caller of the
  context, the state of an earlier render when \<^verbatim>\<open>onopen\<close> calls it.
\<close>

definition sendGamepadState :: "real \<Rightarrow> jsval \<Rightarrow> provider \<Rightarrow> error + provider" where
  "sendGamepadState now gamepadState s =
     (case open_socket s (socket s) of
        Some w \<Rightarrow> send_tracked w (envelope ''gamepad_input'' gamepadState now) s
      | None \<Rightarrow> Inr s)"

definition sendRobotCommand :: "real \<Rightarrow> real \<Rightarrow> robot_command \<Rightarrow> provider \<Rightarrow> error + provider" where
  "sendRobotCommand t1 t2 command s =
     (case open_socket s (socket s) of
        Some w \<Rightarrow>
          send_tracked w
            (envelope ''robot_command''
               (JObj [(''command'', JStr (command_name command)), (''timestamp'', JNum t1)]) t2) s
      | None \<Rightarrow>
          Inr (track (LogError ''Cannot send robot command''
                 [(''reason'', LStr ''Socket not connected''),
                  (''command'', LStr (command_name command)),
                  (''readyState'', socket_readyState s)]) s))"

definition dummy_battery :: "real \<Rightarrow> provider \<Rightarrow> provider" where
  "dummy_battery rnd s =
     s\<lparr>batteryLevel := JNum (Math_round (65 + rnd * 25)),
       events := events s @
         [(''debug:battery-update'', JObj [(''level'', JNum (Math_round (65 + rnd * 25)))])]\<rparr>"

definition requestBatteryLevel_on ::
  "nat option \<Rightarrow> real \<Rightarrow> real \<Rightarrow> real \<Rightarrow> provider \<Rightarrow> error + provider" where
  "requestBatteryLevel_on sk t1 t2 rnd s =
     (case open_socket s sk of
        Some w \<Rightarrow>
          send_tracked w (envelope ''battery_request'' (JObj [(''timestamp'', JNum t1)]) t2) s
      | None \<Rightarrow> Inr (dummy_battery rnd s))"

definition requestBatteryLevel :: "real \<Rightarrow> real \<Rightarrow> real \<Rightarrow> provider \<Rightarrow> error + provider" where
  "requestBatteryLevel t1 t2 rnd s = requestBatteryLevel_on (socket s) t1 t2 rnd s"

definition not_connected :: "string \<Rightarrow> provider \<Rightarrow> provider" where
  "not_connected what s =
     track (LogError what
       [(''reason'', LStr ''Socket not connected''), (''readyState'', socket_readyState s)]) s"

definition updateSettings :: "real \<Rightarrow> real \<Rightarrow> jsval \<Rightarrow> provider \<Rightarrow> error + provider" where
  "updateSettings t1 t2 newSettings s =
     (case open_socket s (socket s) of
        Some w \<Rightarrow>
          send_tracked w
            (envelope ''settings_update''
               (JObj [(''settings'', newSettings), (''timestamp'', JNum t1)]) t2) s
      | None \<Rightarrow> Inr (not_connected ''Cannot send settings update'' s))"

definition speakText :: "real \<Rightarrow> real \<Rightarrow> string \<Rightarrow> provider \<Rightarrow> error + provider" where
  "speakText t1 t2 txt s =
     (case open_socket s (socket s) of
        Some w \<Rightarrow>
          send_tracked w
            (envelope ''speak_text'' (JObj [(''text'', JStr txt), (''timestamp'', JNum t1)]) t2) s
      | None \<Rightarrow> Inr (not_connected ''Cannot send text to speak'' s))"

definition playSound :: "real \<Rightarrow> real \<Rightarrow> string \<Rightarrow> provider \<Rightarrow> error + provider" where
  "playSound t1 t2 sound s =
     (case open_socket s (socket s) of
        Some w \<Rightarrow>
          send_tracked w
            (envelope ''play_sound'' (JObj [(''sound'', JStr sound), (''timestamp'', JNum t1)]) t2) s
      | None \<Rightarrow> Inr (not_connected ''Cannot send sound to play'' s))"

definition restartCameraFeed :: "real \<Rightarrow> real \<Rightarrow> provider \<Rightarrow> error + provider" where
  "restartCameraFeed t1 t2 s = sendRobotCommand t1 t2 restart_camera_feed s"

definition scanNetworks :: "real \<Rightarrow> real \<Rightarrow> provider \<Rightarrow> error + provider" where
  "scanNetworks t1 t2 s =
     (case open_socket s (socket s) of
        Some w \<Rightarrow>
          send_tracked w (envelope ''network_scan'' (JObj [(''timestamp'', JNum t1)]) t2) s
      | None \<Rightarrow> Inr (not_connected ''Cannot send network scan request'' s))"

definition updateNetwork ::
  "real \<Rightarrow> real \<Rightarrow> string \<Rightarrow> (string \<times> jsval) list \<Rightarrow> provider \<Rightarrow> error + provider" where
  "updateNetwork t1 t2 action payload s =
     (case open_socket s (socket s) of
        Some w \<Rightarrow>
          send_tracked w
            (envelope ''network_update''
               (JObj (obj_put ''timestamp'' (JNum t1)
                  (fold (\<lambda>kv obj. obj_put (fst kv) (snd kv) obj) payload
                     [(''action'', JStr action)]))) t2) s
      | None \<Rightarrow> Inr (not_connected ''Cannot send network update'' s))"

definition sendGptCommand ::
  "real \<Rightarrow> real \<Rightarrow> string \<Rightarrow> bool \<Rightarrow> provider \<Rightarrow> error + provider" where
  "sendGptCommand t1 t2 prompt useCamera s =
     (case open_socket s (socket s) of
        Some w \<Rightarrow>
          send_tracked w
            (envelope ''gpt_command''
               (JObj [(''prompt'', JStr prompt), (''useCamera'', JBool useCamera),
                      (''timestamp'', JNum t1)]) t2) s
      | None \<Rightarrow> Inr (not_connected ''Cannot send GPT command'' s))"

subsection \<open>The socket handlers\<close>

definition registerData :: "string \<Rightarrow> real \<Rightarrow> jsval" where
  "registerData rnd36 now =
     envelope ''client_register''
       (JObj [(''type'', JStr ''controller''),
              (''id'', JStr (''controller-'' @ substring 2 9 rnd36))]) now"

definition pingData :: "real \<Rightarrow> real \<Rightarrow> jsval" where
  "pingData t1 t2 = envelope ''ping'' (JObj [(''sentAt'', JNum t1)]) t2"

text \<open>The callback of the interval of lines 265 to 278, for the socket \<open>w\<close> it closes over.\<close>

definition ping_tick :: "nat \<Rightarrow> real \<Rightarrow> real \<Rightarrow> provider \<Rightarrow> error + provider" where
  "ping_tick w t1 t2 s =
     (if ready s w = OPEN then send_tracked w (pingData t1 t2) s else Inr s)"

definition setInterval_ping :: "nat \<Rightarrow> provider \<Rightarrow> provider" where
  "setInterval_ping w s =
     s\<lparr>timers := timers s @ [(next_handle s, \<lparr>pings = w, delay = 500\<rparr>)],
       pingIntervalRef := Some (next_handle s),
       next_handle := next_handle s + 1\<rparr>"

text \<open>
  \<^verbatim>\<open>ws.onopen\<close> of the socket \<open>w\<close>: \<open>now\<close> is the clock at the registration, \<open>rnd36\<close> the
  text of \<^verbatim>\<open>Math.random().toString(36)\<close>, the last three the inputs of the
  \<^verbatim>\<open>requestBatteryLevel\<close> call.
\<close>

definition onopen ::
  "nat \<Rightarrow> real \<Rightarrow> string \<Rightarrow> real \<Rightarrow> real \<Rightarrow> real \<Rightarrow> provider \<Rightarrow> error + provider" where
  "onopen w now rnd36 t1 t2 rnd s =
     seq_err
       (send_tracked w (registerData rnd36 now)
          (track (TrackWsConnection ''connect'') (s\<lparr>status := Connected\<rparr>)))
       (\<lambda>s1. seq_err (requestBatteryLevel_on (render_socket (socks s1 ! w)) t1 t2 rnd s1)
          (\<lambda>s2. Inr (setInterval_ping w s2)))"

definition onclose :: "provider \<Rightarrow> provider" where
  "onclose s =
     clear_ping (track (TrackWsConnection ''disconnect'') (s\<lparr>status := Disconnected\<rparr>))"

definition onerror :: "provider \<Rightarrow> provider" where
  "onerror s =
     track (LogError ''WebSocket connection error''
              [(''message'', LStr ''Connection error''), (''errorType'', LStr ''error'')])
       ((track (ConsoleError ''WebSocket error:'' (LStr ''error'')) s)\<lparr>status := Disconnected\<rparr>)"

text \<open>
  The \<^verbatim>\<open>switch\<close> of \<^verbatim>\<open>ws.onmessage\<close>, lines 307 to 365, on the parsed event. Every read
  that can throw comes before the first state change of its case, so an \<open>Inl\<close> leaves
  the state as it was handed in.
\<close>

definition dispatch :: "runtime \<Rightarrow> real \<Rightarrow> jsval \<Rightarrow> provider \<Rightarrow> error + provider" where
  "dispatch rt now event s =
     seq_err (js_get event ''name'') (\<lambda>name.
       if name = JStr ''pong'' then
         seq_err (js_get event ''data'') (\<lambda>d.
         seq_err (js_get d ''sentAt'') (\<lambda>sentAt.
         seq_err (js_minus (conv rt) (JNum now) sentAt) (\<lambda>latency.
           Inr (s\<lparr>pingTime := latency\<rparr>))))
       else if name = JStr ''battery_info'' then
         seq_err (js_get event ''data'') (\<lambda>d.
         seq_err (js_get d ''level'') (\<lambda>level.
           Inr (s\<lparr>batteryLevel := level,
                  events := events s @
                    [(''debug:battery-update'', JObj [(''level'', level)])]\<rparr>)))
       else if name = JStr ''sensor_data'' then
         seq_err (js_get event ''data'') (\<lambda>d. Inr (s\<lparr>sensorData := d\<rparr>))
       else if name = JStr ''camera_status'' then
         seq_err (js_get event ''data'') (\<lambda>d. Inr (s\<lparr>cameraStatus := d\<rparr>))
       else if name = JStr ''settings'' then
         seq_err (js_get event ''data'') (\<lambda>d.
         seq_err (js_get d ''settings'') (\<lambda>v.
           Inr (if truthy v then s\<lparr>settings := v\<rparr> else s)))
       else if name = JStr ''command_response'' then
         seq_err (js_get event ''data'') (\<lambda>d.
           Inr (s\<lparr>commandResponse := d,
                  events := events s @ [(''debug:command-response'', d)]\<rparr>))
       else if name = JStr ''network_list'' then
         seq_err (js_get event ''data'') (\<lambda>d.
           Inr (s\<lparr>events := events s @ [(''debug:network-list'', d)]\<rparr>))
       else if name = JStr ''gpt_response'' then
         seq_err (js_get event ''data'') (\<lambda>d.
           Inr (s\<lparr>events := events s @ [(''debug:gpt-response'', d)]\<rparr>))
       else Inr s)"

text \<open>The \<^verbatim>\<open>catch\<close> of lines 366 to 372.\<close>

definition parse_failed :: "error \<Rightarrow> string \<Rightarrow> provider \<Rightarrow> provider" where
  "parse_failed e raw s =
     track (LogError ''Error parsing WebSocket message''
              [(''error'', LErr e), (''rawMessage'', LStr raw)])
       (track (ConsoleError ''Error parsing websocket message:'' (LErr e)) s)"

text \<open>\<^verbatim>\<open>ws.onmessage\<close> on a text frame \<open>raw\<close> received at clock \<open>now\<close>.\<close>

definition onmessage :: "runtime \<Rightarrow> real \<Rightarrow> string \<Rightarrow> provider \<Rightarrow> provider" where
  "onmessage rt now raw s =
     (case JSON_parse rt raw of
        None \<Rightarrow> parse_failed SyntaxError raw s
      | Some event \<Rightarrow>
          (case dispatch rt now event (track (TrackWsMessage ''received'' event) s) of
             Inl e \<Rightarrow> parse_failed e raw (track (TrackWsMessage ''received'' event) s)
           | Inr s' \<Rightarrow> s'))"

subsection \<open>Runs of the provider\<close>

text \<open>
  What can happen to a mounted provider: a call of the context, an event of one of its
  sockets, a tick of a registered interval. The browser opens only a connecting socket,
  delivers frames only on an open one and closes a socket once; an open socket whose peer
  starts the closing handshake is closing before its close event (\<open>SockClosing\<close>, no
  handler runs); \<^verbatim>\<open>Math.random()\<close> is in \<open>[0, 1)\<close>. \<open>step\<close> is \<open>None\<close> where the event cannot occur or an exception leaves the
  component. \<open>Unmount\<close> is the cleanup alone; later calls are not excluded, which only
  adds runs. The two effects on \<^verbatim>\<open>localStorage\<close> (lines 389 to 405) are outside the model;
  a saved URL loaded at the mount appears as a \<open>SetCustomWsUrl\<close>.
\<close>

datatype event =
    Mount
  | Connect
  | Disconnect
  | SetCustomWsUrl "string option"
  | Unmount
  | SockOpen nat real string real real real
  | SockClosing nat
  | SockClose nat
  | SockError nat
  | SockMessage nat real string
  | PingTick nat real real
  | SendGamepadState real jsval
  | SendRobotCommand real real robot_command
  | RequestBatteryLevel real real real
  | UpdateSettings real real jsval
  | SpeakText real real string
  | PlaySound real real string
  | RestartCameraFeed real real
  | ScanNetworks real real
  | UpdateNetwork real real string "(string \<times> jsval) list"
  | SendGptCommand real real string bool

definition returned :: "error + provider \<Rightarrow> provider option" where
  "returned r = (case r of Inl e \<Rightarrow> None | Inr s \<Rightarrow> Some s)"

fun step :: "runtime \<Rightarrow> event \<Rightarrow> provider \<Rightarrow> provider option" where
  "step rt Mount s = (if effect_ws s = None then returned (effect_body rt s) else None)"
| "step rt Connect s = returned (connect rt s)"
| "step rt Disconnect s = Some (disconnect s)"
| "step rt (SetCustomWsUrl u) s = returned (setCustomWsUrl rt u s)"
| "step rt Unmount s = Some (effect_cleanup s)"
| "step rt (SockOpen w now rnd36 t1 t2 rnd) s =
     (if w < length (socks s) \<and> ready s w = CONNECTING \<and> 0 \<le> rnd \<and> rnd < 1
      then returned (onopen w now rnd36 t1 t2 rnd (set_ready w OPEN s)) else None)"
| "step rt (SockClosing w) s =
     (if w < length (socks s) \<and> ready s w = OPEN then Some (set_ready w CLOSING s) else None)"
| "step rt (SockClose w) s =
     (if w < length (socks s) \<and> ready s w \<noteq> CLOSED
      then Some (onclose (set_ready w CLOSED s)) else None)"
| "step rt (SockError w) s = (if w < length (socks s) then Some (onerror s) else None)"
| "step rt (SockMessage w now raw) s =
     (if w < length (socks s) \<and> ready s w = OPEN then Some (onmessage rt now raw s) else None)"
| "step rt (PingTick h t1 t2) s =
     (case map_of (timers s) h of
        None \<Rightarrow> None
      | Some iv \<Rightarrow> returned (ping_tick (pings iv) t1 t2 s))"
| "step rt (SendGamepadState now g) s = returned (sendGamepadState now g s)"
| "step rt (SendRobotCommand t1 t2 c) s = returned (sendRobotCommand t1 t2 c s)"
| "step rt (RequestBatteryLevel t1 t2 rnd) s =
     (if 0 \<le> rnd \<and> rnd < 1 then returned (requestBatteryLevel t1 t2 rnd s) else None)"
| "step rt (UpdateSettings t1 t2 v) s = returned (updateSettings t1 t2 v s)"
| "step rt (SpeakText t1 t2 txt) s = returned (speakText t1 t2 txt s)"
| "step rt (PlaySound t1 t2 sound) s = returned (playSound t1 t2 sound s)"
| "step rt (RestartCameraFeed t1 t2) s = returned (restartCameraFeed t1 t2 s)"
| "step rt (ScanNetworks t1 t2) s = returned (scanNetworks t1 t2 s)"
| "step rt (UpdateNetwork t1 t2 a d) s = returned (updateNetwork t1 t2 a d s)"
| "step rt (SendGptCommand t1 t2 p c) s = returned (sendGptCommand t1 t2 p c s)"

fun run :: "runtime \<Rightarrow> event list \<Rightarrow> provider \<Rightarrow> provider option" where
  "run rt [] s = Some s"
| "run rt (e # es) s = (case step rt e s of None \<Rightarrow> None | Some s' \<Rightarrow> run rt es s')"

text \<open>The frames transmitted on the socket \<open>w\<close>, and the sockets that are open or connecting.\<close>

definition frames_on :: "nat \<Rightarrow> provider \<Rightarrow> jsval list" where
  "frames_on w s = map snd (filter (\<lambda>f. fst f = w) (wire s))"

definition live :: "provider \<Rightarrow> nat list" where
  "live s =
     filter (\<lambda>w. ready s w = OPEN \<or> ready s w = CONNECTING) [0..<length (socks s)]"

section \<open>The status component: its socket and its two intervals\<close>

text \<open>
  \<^verbatim>\<open>WebSocketStatus\<close> owns one socket, created when it mounts, a heartbeat interval
  (\<^verbatim>\<open>pingLoop\<close>, 500 ms) registered with it, and the bridge interval (1000 ms) of the
  effect of lines 157 to 193, which React runs again whenever the socket, the status,
  the selected gamepad or the mappings change. The gamepad context is an input that
  changes over time.
\<close>

record gamepad =
  selectedGamepadId :: "string option"
  mappings_of :: mappings
  isActionActive :: "string \<Rightarrow> bool"
  getAxisValueForAction :: "string \<Rightarrow> real option"

record view =
  v_mounted :: bool
  v_status :: ws_status
  v_pingTime :: jsval
  v_socket :: bool
  v_ws :: "ready_state option"
  v_pingLoop :: bool
  v_bridge :: bool
  v_pingTimestampRef :: real
  v_gamepad :: gamepad
  v_sent :: "jsval list"
  v_console :: "sink_entry list"
  v_uncaught :: "error list"

definition v_init :: "gamepad \<Rightarrow> view" where
  "v_init g = \<lparr>v_mounted = False, v_status = Disconnected, v_pingTime = JNull,
     v_socket = False, v_ws = None, v_pingLoop = False, v_bridge = False,
     v_pingTimestampRef = 0, v_gamepad = g, v_sent = [], v_console = [], v_uncaught = []\<rparr>"

text \<open>
  The bridge effect after a render: its cleanup clears the interval, its body registers
  one unless \<^verbatim>\<open>!socket || status !== "connected" || !selectedGamepadId\<close>. An unmounted
  component renders no more.
\<close>

definition bridge_effect :: "view \<Rightarrow> view" where
  "bridge_effect s =
     (if v_mounted s then
        s\<lparr>v_bridge :=
            (v_socket s \<and> v_status s = Connected \<and>
             (case selectedGamepadId (v_gamepad s) of None \<Rightarrow> False | Some g \<Rightarrow> g \<noteq> []))\<rparr>
      else s)"

text \<open>A state setter of an unmounted component does nothing.\<close>

definition v_setStatus :: "ws_status \<Rightarrow> view \<Rightarrow> view" where
  "v_setStatus st s = (if v_mounted s then s\<lparr>v_status := st\<rparr> else s)"

definition v_setPingTime :: "jsval \<Rightarrow> view \<Rightarrow> view" where
  "v_setPingTime v s = (if v_mounted s then s\<lparr>v_pingTime := v\<rparr> else s)"

definition v_send :: "jsval \<Rightarrow> view \<Rightarrow> error + view" where
  "v_send msg s =
     (case v_ws s of
        Some CONNECTING \<Rightarrow> Inl InvalidStateError
      | Some OPEN \<Rightarrow> Inr (s\<lparr>v_sent := v_sent s @ [msg]\<rparr>)
      | _ \<Rightarrow> Inr s)"

text \<open>An exception that leaves a timer callback is reported by the runtime; the state stays.\<close>

definition callback :: "view \<Rightarrow> error + view \<Rightarrow> view" where
  "callback s r = (case r of Inl e \<Rightarrow> s\<lparr>v_uncaught := v_uncaught s @ [e]\<rparr> | Inr s' \<Rightarrow> s')"

text \<open>The first effect, lines 31 to 78.\<close>

definition v_mount :: "view \<Rightarrow> view" where
  "v_mount s =
     bridge_effect (s\<lparr>v_mounted := True, v_ws := Some CONNECTING, v_socket := True,
                      v_pingLoop := True\<rparr>)"

definition v_onopen :: "view \<Rightarrow> view" where
  "v_onopen s = bridge_effect (v_setStatus Connected s)"

definition v_onclose :: "view \<Rightarrow> view" where
  "v_onclose s = bridge_effect (v_setStatus Disconnected s)"

definition v_onerror :: "view \<Rightarrow> view" where
  "v_onerror s =
     bridge_effect (v_setStatus Disconnected
       (s\<lparr>v_console := v_console s @ [ConsoleError ''WebSocket error:'' (LStr ''error'')]\<rparr>))"

text \<open>The body of the \<^verbatim>\<open>try\<close> of lines 51 to 59 on the parsed event.\<close>

definition v_dispatch :: "runtime \<Rightarrow> real \<Rightarrow> jsval \<Rightarrow> view \<Rightarrow> error + view" where
  "v_dispatch rt now event s =
     seq_err (js_get event ''name'') (\<lambda>name.
       if name = JStr ''pong'' then
         seq_err (js_get event ''data'') (\<lambda>d.
         seq_err (js_get d ''sentAt'') (\<lambda>sentAt.
         seq_err (js_minus (conv rt) (JNum now) sentAt) (\<lambda>latency.
           Inr (v_setPingTime latency s))))
       else Inr s)"

definition v_onmessage :: "runtime \<Rightarrow> real \<Rightarrow> string \<Rightarrow> view \<Rightarrow> view" where
  "v_onmessage rt now raw s =
     (case seq_err (case JSON_parse rt raw of None \<Rightarrow> Inl SyntaxError | Some event \<Rightarrow> Inr event)
             (\<lambda>event. v_dispatch rt now event s) of
        Inl e \<Rightarrow>
          s\<lparr>v_console := v_console s @ [ConsoleError ''Error parsing websocket message:'' (LErr e)]\<rparr>
      | Inr s' \<Rightarrow> s')"

text \<open>The callback of \<^verbatim>\<open>pingLoop\<close>, lines 67 to 77: it sends without a test.\<close>

definition v_ping_tick :: "real \<Rightarrow> real \<Rightarrow> view \<Rightarrow> view" where
  "v_ping_tick t1 t2 s = callback s (v_send (pingData t1 t2) s)"

text \<open>The snapshot of lines 170 to 176.\<close>

definition gamepadState :: "gamepad \<Rightarrow> jsval" where
  "gamepadState g =
     JObj [(''speed'',
            JNum (computeSpeed (mappings_of g) (isActionActive g) (getAxisValueForAction g))),
           (''turn'', JNum (case getAxisValueForAction g ''turn'' of None \<Rightarrow> 0 | Some v \<Rightarrow> v)),
           (''turnCameraX'',
            JNum (case getAxisValueForAction g ''turnCameraX'' of None \<Rightarrow> 0 | Some v \<Rightarrow> v)),
           (''turnCameraY'',
            JNum (case getAxisValueForAction g ''turnCameraY'' of None \<Rightarrow> 0 | Some v \<Rightarrow> v)),
           (''use'', JBool (isActionActive g ''use''))]"

text \<open>The callback of the bridge interval, lines 163 to 185.\<close>

definition v_bridge_tick :: "real \<Rightarrow> view \<Rightarrow> view" where
  "v_bridge_tick now s =
     callback (s\<lparr>v_pingTimestampRef := now\<rparr>)
       (v_send (envelope ''gamepad_input'' (gamepadState (v_gamepad s)) now)
          (s\<lparr>v_pingTimestampRef := now\<rparr>))"

text \<open>\<^verbatim>\<open>ws.close()\<close>, not guarded here: nothing happens on a closing or closed socket.\<close>

definition v_close :: "view \<Rightarrow> view" where
  "v_close s =
     (case v_ws s of
        Some CONNECTING \<Rightarrow> s\<lparr>v_ws := Some CLOSING\<rparr>
      | Some OPEN \<Rightarrow> s\<lparr>v_ws := Some CLOSING\<rparr>
      | _ \<Rightarrow> s)"

text \<open>Unmounting runs the cleanups of lines 79 to 82 and of line 187.\<close>

definition v_unmount :: "view \<Rightarrow> view" where
  "v_unmount s = (v_close s)\<lparr>v_pingLoop := False, v_bridge := False, v_mounted := False\<rparr>"

datatype v_event =
    VMount
  | VUnmount
  | VOpen
  | VClosing
  | VClose
  | VError
  | VMessage real string
  | VPingTick real real
  | VBridgeTick real
  | VContext gamepad

fun v_step :: "runtime \<Rightarrow> v_event \<Rightarrow> view \<Rightarrow> view option" where
  "v_step rt VMount s = (if v_ws s = None then Some (v_mount s) else None)"
| "v_step rt VUnmount s = (if v_mounted s then Some (v_unmount s) else None)"
| "v_step rt VOpen s =
     (if v_ws s = Some CONNECTING then Some (v_onopen (s\<lparr>v_ws := Some OPEN\<rparr>)) else None)"
| "v_step rt VClosing s = (if v_ws s = Some OPEN then Some (s\<lparr>v_ws := Some CLOSING\<rparr>) else None)"
| "v_step rt VClose s =
     (if v_ws s = None \<or> v_ws s = Some CLOSED then None
      else Some (v_onclose (s\<lparr>v_ws := Some CLOSED\<rparr>)))"
| "v_step rt VError s = (if v_ws s = None then None else Some (v_onerror s))"
| "v_step rt (VMessage now raw) s =
     (if v_ws s = Some OPEN then Some (v_onmessage rt now raw s) else None)"
| "v_step rt (VPingTick t1 t2) s = (if v_pingLoop s then Some (v_ping_tick t1 t2 s) else None)"
| "v_step rt (VBridgeTick now) s = (if v_bridge s then Some (v_bridge_tick now s) else None)"
| "v_step rt (VContext g) s =
     (if v_mounted s then Some (bridge_effect (s\<lparr>v_gamepad := g\<rparr>)) else None)"

fun v_run :: "runtime \<Rightarrow> v_event list \<Rightarrow> view \<Rightarrow> view option" where
  "v_run rt [] s = Some s"
| "v_run rt (e # es) s = (case v_step rt e s of None \<Rightarrow> None | Some s' \<Rightarrow> v_run rt es s')"

section \<open>Notions used to state the properties\<close>

subsection \<open>Bindings\<close>

text \<open>
  An action is bound as a button or an axis when its binding exists, has an index other
  than \<open>-1\<close> and that type; it is unbound when the binding is missing or has index \<open>-1\<close>.
\<close>

definition bound_as :: "string \<Rightarrow> mappings \<Rightarrow> string \<Rightarrow> bool" where
  "bound_as t m k = (case m k of None \<Rightarrow> False | Some b \<Rightarrow> index b \<noteq> -1 \<and> type b = t)"

definition unbound :: "mappings \<Rightarrow> string \<Rightarrow> bool" where
  "unbound m k = (case m k of None \<Rightarrow> True | Some b \<Rightarrow> index b = -1)"

text \<open>
  The neutral value the specification names for an action: \<open>0\<close> for \<^verbatim>\<open>accelerate\<close>,
  \<^verbatim>\<open>brake\<close>, \<^verbatim>\<open>turn\<close>, \<^verbatim>\<open>turnCameraX\<close> and \<^verbatim>\<open>turnCameraY\<close>, \<^verbatim>\<open>false\<close> for \<^verbatim>\<open>use\<close>.
\<close>

definition spec_neutral :: "string \<Rightarrow> jsval" where
  "spec_neutral k = (if k = ''use'' then JBool False else JNum 0)"

text \<open>Sample inputs: every action unbound, every button held, every axis at one half.\<close>

definition all_unbound :: mappings where
  "all_unbound k = Some \<lparr>type = ''unbound'', index = -1\<rparr>"

definition all_held :: "string \<Rightarrow> bool" where
  "all_held k = True"

definition all_half :: "string \<Rightarrow> real option" where
  "all_half k = Some (1 / 2)"

text \<open>Sample bindings: buttons 7 and 6 for \<^verbatim>\<open>accelerate\<close> and \<^verbatim>\<open>brake\<close>, axis 0 for \<^verbatim>\<open>turn\<close>.\<close>

definition pad_buttons :: mappings where
  "pad_buttons k =
     (if k = ''accelerate'' then Some \<lparr>type = ''button'', index = 7\<rparr>
      else if k = ''brake'' then Some \<lparr>type = ''button'', index = 6\<rparr>
      else if k = ''turn'' then Some \<lparr>type = ''axis'', index = 0\<rparr>
      else Some \<lparr>type = ''button'', index = -1\<rparr>)"

text \<open>Sample bindings: axis 5 for \<^verbatim>\<open>accelerate\<close>, \<^verbatim>\<open>brake\<close> unbound or on axis 4.\<close>

definition pad_trigger :: mappings where
  "pad_trigger k =
     (if k = ''accelerate'' then Some \<lparr>type = ''axis'', index = 5\<rparr> else None)"

definition pad_triggers :: mappings where
  "pad_triggers k =
     (if k = ''accelerate'' then Some \<lparr>type = ''axis'', index = 5\<rparr>
      else if k = ''brake'' then Some \<lparr>type = ''axis'', index = 4\<rparr>
      else None)"

definition axes_opposed :: "string \<Rightarrow> real option" where
  "axes_opposed k = (if k = ''accelerate'' then Some 1 else if k = ''brake'' then Some (-1) else None)"

text \<open>A gamepad context: a selected pad with the button bindings above, every button held.\<close>

definition held_pad :: gamepad where
  "held_pad = \<lparr>selectedGamepadId = Some ''pad-0'', mappings_of = pad_buttons,
                isActionActive = all_held, getAxisValueForAction = all_half\<rparr>"

subsection \<open>Invariants of the provider\<close>

text \<open>A socket that is open or connecting is the socket of the current effect.\<close>

definition live_is_current :: "provider \<Rightarrow> bool" where
  "live_is_current s \<longleftrightarrow>
     (\<forall>w < length (socks s).
        ready s w = OPEN \<or> ready s w = CONNECTING \<longrightarrow> effect_ws s = Some w)"

text \<open>
  At most one interval is registered: the one \<^verbatim>\<open>pingIntervalRef\<close> holds, pinging the
  socket of the current effect, which has been opened.
\<close>

definition one_timer :: "provider \<Rightarrow> bool" where
  "one_timer s \<longleftrightarrow>
     timers s = [] \<or>
     (\<exists>h w. timers s = [(h, \<lparr>pings = w, delay = 500\<rparr>)] \<and> pingIntervalRef s = Some h \<and>
            effect_ws s = Some w \<and> w < length (socks s) \<and> ready s w \<noteq> CONNECTING)"

text \<open>
  Frames were transmitted only on sockets that exist and have been opened; an open
  socket has transmitted something; the first frame of a socket is a registration.
\<close>

definition wire_ok :: "provider \<Rightarrow> bool" where
  "wire_ok s \<longleftrightarrow>
     (\<forall>f \<in> set (wire s). fst f < length (socks s) \<and> ready s (fst f) \<noteq> CONNECTING) \<and>
     (\<forall>w < length (socks s). ready s w = OPEN \<longrightarrow> frames_on w s \<noteq> []) \<and>
     (\<forall>w. frames_on w s \<noteq> [] \<longrightarrow> (\<exists>r n. hd (frames_on w s) = registerData r n))"

text \<open>
  The state \<^verbatim>\<open>socket\<close> and \<^verbatim>\<open>socketRef\<close> hold the socket of the current effect, which
  exists; the handlers of a socket hold an older socket.
\<close>

definition closures_ok :: "provider \<Rightarrow> bool" where
  "closures_ok s \<longleftrightarrow>
     (\<forall>w < length (socks s). \<forall>k. render_socket (socks s ! w) = Some k \<longrightarrow> k < w) \<and>
     (\<forall>k. socket s = Some k \<longrightarrow> k < length (socks s)) \<and>
     socket s = effect_ws s \<and> socketRef s = effect_ws s"

definition inv :: "provider \<Rightarrow> bool" where
  "inv s \<longleftrightarrow> live_is_current s \<and> one_timer s \<and> wire_ok s \<and> closures_ok s"

text \<open>The part of the state that describes the connection, and a step that changes
  none of it and transmits only on open sockets.\<close>

definition conn ::
  "provider \<Rightarrow>
   websocket list \<times> (nat \<times> interval) list \<times> nat option \<times> nat option \<times> nat option \<times> nat option" where
  "conn s = (socks s, timers s, pingIntervalRef s, effect_ws s, socket s, socketRef s)"

definition sends_only :: "provider \<Rightarrow> provider \<Rightarrow> bool" where
  "sends_only s s' \<longleftrightarrow>
     conn s' = conn s \<and>
     (\<exists>fs. wire s' = wire s @ fs \<and>
           (\<forall>f \<in> set fs. fst f < length (socks s) \<and> ready s (fst f) = OPEN))"

text \<open>A step that transmits nothing and at most closes sockets or adds one.\<close>

definition closing :: "provider \<Rightarrow> provider \<Rightarrow> bool" where
  "closing s s' \<longleftrightarrow>
     wire s' = wire s \<and> length (socks s) \<le> length (socks s') \<and>
     (\<forall>k < length (socks s).
        ready s' k = ready s k \<or> ready s' k = CLOSING \<or> ready s' k = CLOSED)"

text \<open>A socket that has been closed, by the component or by the peer.\<close>

definition closed :: "provider \<Rightarrow> nat \<Rightarrow> bool" where
  "closed s w \<longleftrightarrow> w < length (socks s) \<and> (ready s w = CLOSING \<or> ready s w = CLOSED)"

definition v_closed :: "view \<Rightarrow> bool" where
  "v_closed s \<longleftrightarrow> v_ws s = Some CLOSING \<or> v_ws s = Some CLOSED"

subsection \<open>Sample runtime and frames\<close>

definition pong_frame :: "real \<Rightarrow> real \<Rightarrow> jsval" where
  "pong_frame sentAt createdAt = envelope ''pong'' (JObj [(''sentAt'', JNum sentAt)]) createdAt"

definition battery_info :: "jsval \<Rightarrow> real \<Rightarrow> jsval" where
  "battery_info level createdAt = envelope ''battery_info'' (JObj [(''level'', level)]) createdAt"

text \<open>
  \<^verbatim>\<open>JSON.parse\<close> on the texts the examples use: three pongs, the value \<^verbatim>\<open>null\<close>, and
  texts that are not JSON. The number that the text \<^verbatim>\<open>0.1\<close> denotes is the binary64 value
  nearest to one tenth, \<open>3602879701896397 / 2 ^ 55\<close>.
\<close>

definition sample_parse :: "string \<Rightarrow> jsval option" where
  \<open>sample_parse raw =
     (if raw = ''{"name":"pong","data":{"sentAt":963},"createdAt":990}'' then Some (pong_frame 963 990)
      else if raw = ''{"name":"pong","data":{"sentAt":400},"createdAt":990}'' then Some (pong_frame 400 990)
      else if raw = ''{"name":"pong","data":{"sentAt":0.1},"createdAt":990}''
        then Some (pong_frame (3602879701896397 / 2 ^ 55) 990)
      else if raw = ''null'' then Some JNull
      else None)\<close>

text \<open>
  A count of milliseconds as \<^verbatim>\<open>Date.now()\<close> returns it: a whole number, not negative and
  below \<open>2 ^ 53\<close>.
\<close>

definition timestamp :: "real \<Rightarrow> bool" where
  "timestamp t \<longleftrightarrow> of_int \<lfloor>t\<rfloor> = t \<and> 0 \<le> t \<and> t < 2 ^ 53"

definition rt0 :: runtime where
  "rt0 = \<lparr>JSON_parse = sample_parse, conv = (\<lambda>v. Inr JNaN), url_ok = (\<lambda>u. u \<noteq> []),
           hostname = ''robot.local''\<rparr>"

text \<open>The timestamp of the ping transmitted last on a socket, read off the wire.\<close>

definition is_ping :: "jsval \<Rightarrow> bool" where
  "is_ping m = (js_get m ''name'' = Inr (JStr ''ping''))"

definition sentAt_of :: "jsval \<Rightarrow> jsval" where
  "sentAt_of m =
     (case js_get m ''data'' of
        Inl e \<Rightarrow> JUndefined
      | Inr d \<Rightarrow> (case js_get d ''sentAt'' of Inl e \<Rightarrow> JUndefined | Inr v \<Rightarrow> v))"

definition last_ping_sentAt :: "nat \<Rightarrow> provider \<Rightarrow> jsval option" where
  "last_ping_sentAt w s =
     (case rev (filter is_ping (frames_on w s)) of [] \<Rightarrow> None | m # ms \<Rightarrow> Some (sentAt_of m))"

text \<open>A provider that mounted, whose socket opened at clock 100 and pinged at clock 1000.\<close>

definition after_first_ping :: "provider option" where
  "after_first_ping =
     run rt0 [Mount, SockOpen 0 100 ''0.k3j9x2mq1f'' 100 100 (1 / 2), PingTick 1 1000 1000] init"

text \<open>
  The state the open handler of the socket \<open>w\<close> leaves when its
  \<^verbatim>\<open>requestBatteryLevel\<close> call finds no open socket: connected, registered on \<open>w\<close>, a dummy
  battery level, the heartbeat interval registered.
\<close>

definition opened :: "nat \<Rightarrow> real \<Rightarrow> string \<Rightarrow> real \<Rightarrow> provider \<Rightarrow> provider" where
  "opened w now rnd36 rnd s =
     setInterval_ping w
       (dummy_battery rnd
          (track (TrackWsMessage ''sent'' (registerData rnd36 now))
             ((track (TrackWsConnection ''connect'') (s\<lparr>status := Connected\<rparr>))
                \<lparr>wire := wire s @ [(w, registerData rnd36 now)]\<rparr>)))"

text \<open>
  Invariant of the status component: a mounted component has its socket; once it is
  unmounted, or before it mounts, neither of its intervals is registered.
\<close>

definition v_inv :: "view \<Rightarrow> bool" where
  "v_inv s \<longleftrightarrow>
     (v_mounted s \<longrightarrow> v_ws s \<noteq> None) \<and> (v_mounted s \<or> (\<not> v_pingLoop s \<and> \<not> v_bridge s))"

text \<open>
  Two later stages of the status component: unmounted, with both intervals cleared; and
  its socket closed while the bridge interval is cleared and cannot come back.
\<close>

definition v_unmounted :: "view \<Rightarrow> bool" where
  "v_unmounted s \<longleftrightarrow> \<not> v_mounted s \<and> v_ws s \<noteq> None \<and> \<not> v_pingLoop s \<and> \<not> v_bridge s"

definition v_gone :: "view \<Rightarrow> bool" where
  "v_gone s \<longleftrightarrow>
     v_ws s = Some CLOSED \<and> \<not> v_bridge s \<and> (v_mounted s \<longrightarrow> v_status s \<noteq> Connected)"

text \<open>A call that returned, transmitted nothing, registered no interval and left every
  socket as it was.\<close>

definition skipped :: "provider \<Rightarrow> error + provider \<Rightarrow> bool" where
  "skipped s r =
     (case r of
        Inl e \<Rightarrow> False
      | Inr s' \<Rightarrow> wire s' = wire s \<and> timers s' = timers s \<and> socks s' = socks s)"


section \<open>How the primitives act on the state\<close>

lemma nth_update_total:
  "xs[i := x] ! j = (if j = i \<and> i < length xs then x else xs ! j)"
  by (cases "i < length xs") (simp_all add: not_less list_update_beyond)

lemma ready_update [simp]:
  "ready (s\<lparr>wire := x1\<rparr>) w = ready s w"
  "ready (s\<lparr>debug := x2\<rparr>) w = ready s w"
  "ready (s\<lparr>events := x3\<rparr>) w = ready s w"
  "ready (s\<lparr>status := x4\<rparr>) w = ready s w"
  "ready (s\<lparr>batteryLevel := x5\<rparr>) w = ready s w"
  "ready (s\<lparr>timers := x6\<rparr>) w = ready s w"
  "ready (s\<lparr>pingIntervalRef := x7\<rparr>) w = ready s w"
  "ready (s\<lparr>reconnectTrigger := x8\<rparr>) w = ready s w"
  "ready (s\<lparr>customWsUrl := x9\<rparr>) w = ready s w"
  "ready (s\<lparr>pingTime := y1\<rparr>) w = ready s w"
  "ready (s\<lparr>sensorData := y2\<rparr>) w = ready s w"
  "ready (s\<lparr>cameraStatus := y3\<rparr>) w = ready s w"
  "ready (s\<lparr>settings := y4\<rparr>) w = ready s w"
  "ready (s\<lparr>commandResponse := y5\<rparr>) w = ready s w"
  "ready (s\<lparr>next_handle := y6\<rparr>) w = ready s w"
  "ready (s\<lparr>socket := y7\<rparr>) w = ready s w"
  "ready (s\<lparr>socketRef := y8\<rparr>) w = ready s w"
  "ready (s\<lparr>effect_ws := y9\<rparr>) w = ready s w"
  by (simp_all add: ready_def)

lemma frames_on_update [simp]:
  "frames_on w (s\<lparr>debug := x2\<rparr>) = frames_on w s"
  "frames_on w (s\<lparr>events := x3\<rparr>) = frames_on w s"
  "frames_on w (s\<lparr>status := x4\<rparr>) = frames_on w s"
  "frames_on w (s\<lparr>batteryLevel := x5\<rparr>) = frames_on w s"
  "frames_on w (s\<lparr>timers := x6\<rparr>) = frames_on w s"
  "frames_on w (s\<lparr>pingIntervalRef := x7\<rparr>) = frames_on w s"
  "frames_on w (s\<lparr>reconnectTrigger := x8\<rparr>) = frames_on w s"
  "frames_on w (s\<lparr>customWsUrl := x9\<rparr>) = frames_on w s"
  "frames_on w (s\<lparr>next_handle := y6\<rparr>) = frames_on w s"
  "frames_on w (s\<lparr>socket := y7\<rparr>) = frames_on w s"
  "frames_on w (s\<lparr>socketRef := y8\<rparr>) = frames_on w s"
  "frames_on w (s\<lparr>effect_ws := y9\<rparr>) = frames_on w s"
  "frames_on w (s\<lparr>socks := y10\<rparr>) = frames_on w s"
  by (simp_all add: frames_on_def)

lemma frames_on_append:
  "wire s' = wire s @ fs \<Longrightarrow>
   frames_on w s' = frames_on w s @ map snd (filter (\<lambda>f. fst f = w) fs)"
  by (simp add: frames_on_def)

lemma set_ready_fields [simp]:
  "length (socks (set_ready w r s)) = length (socks s)"
  "timers (set_ready w r s) = timers s"
  "pingIntervalRef (set_ready w r s) = pingIntervalRef s"
  "effect_ws (set_ready w r s) = effect_ws s"
  "socket (set_ready w r s) = socket s"
  "socketRef (set_ready w r s) = socketRef s"
  "next_handle (set_ready w r s) = next_handle s"
  "wire (set_ready w r s) = wire s"
  "debug (set_ready w r s) = debug s"
  "events (set_ready w r s) = events s"
  "status (set_ready w r s) = status s"
  "frames_on k (set_ready w r s) = frames_on k s"
  by (simp_all add: set_ready_def frames_on_def)

lemma set_ready_nth [simp]:
  "render_socket (socks (set_ready w r s) ! k) = render_socket (socks s ! k)"
  "ready (set_ready w r s) k = (if k = w \<and> w < length (socks s) then r else ready s k)"
  by (simp_all add: set_ready_def ready_def nth_update_total)

lemma close_if_live_fields [simp]:
  "length (socks (close_if_live w s)) = length (socks s)"
  "timers (close_if_live w s) = timers s"
  "pingIntervalRef (close_if_live w s) = pingIntervalRef s"
  "effect_ws (close_if_live w s) = effect_ws s"
  "socket (close_if_live w s) = socket s"
  "socketRef (close_if_live w s) = socketRef s"
  "next_handle (close_if_live w s) = next_handle s"
  "wire (close_if_live w s) = wire s"
  "debug (close_if_live w s) = debug s"
  "events (close_if_live w s) = events s"
  "status (close_if_live w s) = status s"
  "frames_on k (close_if_live w s) = frames_on k s"
  "render_socket (socks (close_if_live w s) ! k) = render_socket (socks s ! k)"
  by (simp_all add: close_if_live_def)

lemma ready_close_if_live:
  "ready (close_if_live w s) k =
     (if k = w \<and> w < length (socks s) \<and> (ready s w = OPEN \<or> ready s w = CONNECTING)
      then CLOSING else ready s k)"
  by (simp add: close_if_live_def)

lemma clear_ping_fields [simp]:
  "socks (clear_ping s) = socks s"
  "pingIntervalRef (clear_ping s) = None"
  "effect_ws (clear_ping s) = effect_ws s"
  "socket (clear_ping s) = socket s"
  "socketRef (clear_ping s) = socketRef s"
  "next_handle (clear_ping s) = next_handle s"
  "wire (clear_ping s) = wire s"
  "debug (clear_ping s) = debug s"
  "events (clear_ping s) = events s"
  "status (clear_ping s) = status s"
  "frames_on k (clear_ping s) = frames_on k s"
  "ready (clear_ping s) w = ready s w"
  by (simp_all add: clear_ping_def clearInterval_def frames_on_def ready_def split: option.splits)

lemma timers_clear_ping:
  "one_timer s \<Longrightarrow> timers (clear_ping s) = []"
  by (auto simp add: one_timer_def clear_ping_def clearInterval_def split: option.splits)

lemma track_fields [simp]:
  "socks (track e s) = socks s"
  "timers (track e s) = timers s"
  "pingIntervalRef (track e s) = pingIntervalRef s"
  "effect_ws (track e s) = effect_ws s"
  "socket (track e s) = socket s"
  "socketRef (track e s) = socketRef s"
  "next_handle (track e s) = next_handle s"
  "wire (track e s) = wire s"
  "debug (track e s) = debug s @ [e]"
  "events (track e s) = events s"
  "status (track e s) = status s"
  "frames_on k (track e s) = frames_on k s"
  "ready (track e s) w = ready s w"
  by (simp_all add: track_def)

section \<open>Differences that are exact\<close>

text \<open>
  The exponent search finds the binary exponent; a whole number of magnitude below
  \<open>2 ^ 53\<close> is a binary64 value, so the difference of two timestamps is not rounded.
\<close>

lemma halvings_eq:
  "2 ^ k \<le> x \<Longrightarrow> x < 2 ^ Suc k \<Longrightarrow> k \<le> n \<Longrightarrow> halvings n x = k"
proof (induction n arbitrary: x k)
  case 0
  then show ?case by simp
next
  case (Suc n)
  show ?case
  proof (cases k)
    case 0
    then show ?thesis using Suc.prems by simp
  next
    case (Suc j)
    have "(1 :: real) \<le> 2 ^ j"
      by simp
    moreover have "2 * 2 ^ j \<le> x" "x < 2 * (2 * 2 ^ j)" "j \<le> n"
      using Suc.prems Suc by simp_all
    ultimately have "\<not> x < 2" "2 ^ j \<le> x / 2" "x / 2 < 2 ^ Suc j" "j \<le> n"
      by (linarith, simp_all)
    then show ?thesis
      using Suc.IH [of j "x / 2"] Suc by simp
  qed
qed

lemma halvings_le:
  "x < 2 ^ Suc k \<Longrightarrow> halvings n x \<le> k"
proof (induction n arbitrary: x k)
  case 0
  then show ?case by simp
next
  case (Suc n)
  show ?case
  proof (cases "x < 2")
    case True
    then show ?thesis by simp
  next
    case False
    then obtain j where j: "k = Suc j"
      using Suc.prems by (cases k) simp_all
    then have "x / 2 < 2 ^ Suc j"
      using Suc.prems by simp
    then show ?thesis
      using Suc.IH [of "x / 2" j] False j by simp
  qed
qed

lemma round_even_of_int: "round_even (of_int z) = z"
  by (simp add: round_even_def)

lemma quantum_small:
  assumes "\<bar>x\<bar> < 2 ^ 53"
  shows "\<exists>k. quantum x = 1 / 2 ^ k"
proof (cases "52 \<le> exponent \<bar>x\<bar>")
  case True
  then have "1 \<le> \<bar>x\<bar>" "52 \<le> halvings 1023 \<bar>x\<bar>"
    by (simp_all add: exponent_def split: if_splits)
  moreover have "halvings 1023 \<bar>x\<bar> \<le> 52"
    using halvings_le [of "\<bar>x\<bar>" 52 1023] assms by simp
  ultimately have "exponent \<bar>x\<bar> = 52"
    by (simp add: exponent_def)
  then have "quantum x = 1 / 2 ^ 0"
    by (simp add: quantum_def)
  then show ?thesis ..
next
  case False
  then have "quantum x = 1 / 2 ^ nat (52 - exponent \<bar>x\<bar>)"
    by (simp add: quantum_def)
  then show ?thesis ..
qed

lemma binary64_finite:
  assumes "of_int (round_even (x / quantum x)) * quantum x = v" and "\<bar>v\<bar> < 2 ^ 1024"
  shows "binary64 x = JNum v"
proof -
  have "\<not> 2 ^ 1024 \<le> v" "\<not> v \<le> - (2 ^ 1024)"
    using assms(2) by (simp_all only: abs_less_iff not_le minus_less_iff)
  then show ?thesis
    unfolding binary64_def assms(1) by (simp only: if_False)
qed

lemma binary64_exact:
  assumes "of_int \<lfloor>x\<rfloor> = x" and "\<bar>x\<bar> < 2 ^ 53"
  shows "binary64 x = JNum x"
proof -
  obtain k where k: "quantum x = 1 / 2 ^ k"
    using quantum_small [OF assms(2)] by blast
  obtain z :: int where z: "x = of_int z"
    using assms(1) by metis
  have "x / quantum x = of_int (z * 2 ^ k)"
    unfolding k by (simp add: z)
  then have re: "round_even (x / quantum x) = z * 2 ^ k"
    by (simp only: round_even_of_int)
  have r: "of_int (round_even (x / quantum x)) * quantum x = x"
    by (subst re, subst k) (simp add: z)
  have "(2 :: real) ^ 53 \<le> 2 ^ 1024"
    by (rule power_increasing) simp_all
  then have "\<bar>x\<bar> < 2 ^ 1024"
    using assms(2) by linarith
  then show ?thesis
    using r by (rule binary64_finite [rotated])
qed

lemma binary64_timestamps:
  assumes "timestamp T" and "timestamp (T + d)"
  shows "binary64 (T + d - T) = JNum d"
proof -
  obtain a b :: int where ab: "T = of_int a" "T + d = of_int b"
    using assms unfolding timestamp_def by metis
  then have "d = of_int (b - a)"
    by simp
  then have "of_int \<lfloor>d\<rfloor> = d"
    by (simp only: floor_of_int)
  moreover have "\<bar>d\<bar> < 2 ^ 53"
    using assms by (simp add: timestamp_def abs_less_iff)
  ultimately show ?thesis
    using binary64_exact [of d] by simp
qed

lemma binary64_between:
  assumes "2 ^ k \<le> \<bar>x\<bar>" and "\<bar>x\<bar> < 2 ^ Suc k" and "k \<le> 52"
    and "round_even (x * 2 ^ (52 - k)) = n"
  shows "binary64 x = JNum (of_int n / 2 ^ (52 - k))"
proof -
  have "1 \<le> \<bar>x\<bar>"
    using assms(1) one_le_power [of "2 :: real" k] by linarith
  then have "exponent \<bar>x\<bar> = int k"
    using halvings_eq [OF assms(1,2), of 1023] assms(3) by (simp add: exponent_def)
  then have q: "quantum x = 1 / 2 ^ (52 - k)"
    using assms(3) by (simp add: quantum_def nat_diff_distrib')
  have m: "of_int (round_even (x / quantum x)) * quantum x = of_int n / 2 ^ (52 - k)"
    using assms(4) by (simp add: q)
  have y: "\<bar>x * 2 ^ (52 - k)\<bar> < 2 ^ 53"
  proof -
    have "\<bar>x * 2 ^ (52 - k)\<bar> = \<bar>x\<bar> * 2 ^ (52 - k)"
      by (simp add: abs_mult)
    also have "\<dots> < 2 ^ Suc k * 2 ^ (52 - k)"
      using assms(2) by (simp del: power_Suc)
    also have "\<dots> = 2 ^ (Suc k + (52 - k))"
      by (simp only: power_add)
    also have "\<dots> = 2 ^ 53"
      using assms(3) by simp
    finally show ?thesis .
  qed
  have "\<bar>of_int n :: real\<bar> \<le> 2 ^ 53"
  proof -
    define f where "f = \<lfloor>x * 2 ^ (52 - k)\<rfloor>"
    have "f < 2 ^ 53" "- (2 ^ 53) \<le> f"
      unfolding f_def using y by (simp_all add: floor_less_iff le_floor_iff abs_less_iff)
    moreover have "n = f \<or> n = f + 1"
      unfolding f_def using assms(4) by (auto simp add: round_even_def split: if_splits)
    ultimately have "n \<le> 2 ^ 53" "- (2 ^ 53) \<le> n"
      by auto
    then have "(of_int n :: real) \<le> of_int (2 ^ 53)" "of_int (- (2 ^ 53)) \<le> (of_int n :: real)"
      by (simp_all only: of_int_le_iff)
    then show ?thesis
      by (simp add: abs_le_iff)
  qed
  moreover have "\<bar>of_int n :: real\<bar> / 2 ^ (52 - k) \<le> \<bar>of_int n\<bar> / 1"
    by (rule divide_left_mono) simp_all
  ultimately have "\<bar>of_int n / 2 ^ (52 - k) :: real\<bar> \<le> 2 ^ 53"
    by (simp add: abs_divide)
  moreover have "(2 :: real) ^ 53 < 2 ^ 1024"
    by (rule power_strict_increasing) simp_all
  ultimately have "\<bar>of_int n / 2 ^ (52 - k) :: real\<bar> < 2 ^ 1024"
    by linarith
  then show ?thesis
    using m by (rule binary64_finite [rotated])
qed


section \<open>Speed and action values\<close>

lemmas pad_defs = pad_buttons_def pad_trigger_def pad_triggers_def all_unbound_def all_held_def
  all_half_def axes_opposed_def

lemmas speed_defs = computeSpeed_def accelerateValue_def brakeValue_def

text \<open>
  C1. For every mapping state the speed is the resolved accelerate value minus the
  resolved brake value, and nothing clamps it; it is also the \<^verbatim>\<open>speed\<close> field of the
  snapshot the bridge sends. Both actions on buttons and both held: \<open>0\<close>. Accelerate on a
  held button, brake unbound: \<open>1\<close>. Accelerate on an axis that reads \<open>v\<close>, brake unbound:
  \<open>v\<close>.
\<close>

theorem speed_is_accelerate_minus_brake:
  "computeSpeed m ia ga = accelerateValue m ia ga - brakeValue m ia ga \<and>
   js_get (gamepadState \<lparr>selectedGamepadId = gid, mappings_of = m, isActionActive = ia,
                         getAxisValueForAction = ga\<rparr>) ''speed'' =
     Inr (JNum (accelerateValue m ia ga - brakeValue m ia ga)) \<and>
   (bound_as ''button'' m ''accelerate'' \<and> bound_as ''button'' m ''brake'' \<and>
      ia ''accelerate'' \<and> ia ''brake'' \<longrightarrow> computeSpeed m ia ga = 0) \<and>
   (bound_as ''button'' m ''accelerate'' \<and> ia ''accelerate'' \<and> unbound m ''brake'' \<longrightarrow>
      computeSpeed m ia ga = 1) \<and>
   (bound_as ''axis'' m ''accelerate'' \<and> ga ''accelerate'' = Some v \<and> unbound m ''brake'' \<longrightarrow>
      computeSpeed m ia ga = v)"
  by (auto simp add: speed_defs gamepadState_def bound_as_def unbound_def split: option.splits)

text \<open>
  The three cases at sample bindings, and a speed of \<open>2\<close>, outside \<open>[-1, 1]\<close>, when the
  accelerate axis reads \<open>1\<close> and the brake axis \<open>-1\<close>.
\<close>

theorem speed_is_accelerate_minus_brake_witness:
  "computeSpeed pad_buttons all_held all_half = 0 \<and>
   computeSpeed (pad_buttons(''brake'' := None)) all_held all_half = 1 \<and>
   computeSpeed pad_trigger all_held all_half = 1 / 2 \<and>
   computeSpeed pad_triggers all_held axes_opposed = 2"
  using speed_is_accelerate_minus_brake [of pad_buttons all_held all_half None "1 / 2"]
    speed_is_accelerate_minus_brake [of "pad_buttons(''brake'' := None)" all_held all_half None "1 / 2"]
    speed_is_accelerate_minus_brake [of pad_trigger all_held all_half None "1 / 2"]
    speed_is_accelerate_minus_brake [of pad_triggers all_held axes_opposed None 1]
  by (simp add: bound_as_def unbound_def pad_defs accelerateValue_def brakeValue_def)

text \<open>
  C2, as stated, fails: with every action unbound, whatever the device reads,
  \<^verbatim>\<open>getActionValue\<close> gives \<open>0\<close> for \<^verbatim>\<open>use\<close>, not \<^verbatim>\<open>false\<close>, and \<^verbatim>\<open>false\<close> for
  \<^verbatim>\<open>accelerate\<close>, not \<open>0\<close>.
\<close>

theorem unbound_neutral_counterexample:
  "getActionValue all_unbound all_held all_half ''use'' = JNum 0 \<and>
   spec_neutral ''use'' = JBool False \<and>
   getActionValue all_unbound all_held all_half ''accelerate'' = JBool False \<and>
   spec_neutral ''accelerate'' = JNum 0"
  by (simp add: getActionValue_def spec_neutral_def pad_defs)

text \<open>
  C2, amended. For an unbound action, whatever the device reads: the two resolvers of
  \<^verbatim>\<open>computeSpeed\<close> give \<open>0\<close> for \<^verbatim>\<open>accelerate\<close> and \<^verbatim>\<open>brake\<close>; \<^verbatim>\<open>getActionValue\<close> gives
  \<^verbatim>\<open>false\<close> for \<^verbatim>\<open>accelerate\<close> and \<^verbatim>\<open>brake\<close> and \<open>0\<close> for every other action.
\<close>

theorem unbound_action_values:
  "(unbound m ''accelerate'' \<longrightarrow> accelerateValue m ia ga = 0) \<and>
   (unbound m ''brake'' \<longrightarrow> brakeValue m ia ga = 0) \<and>
   (unbound m k \<longrightarrow>
      getActionValue m ia ga k =
        (if k = ''accelerate'' \<or> k = ''brake'' then JBool False else JNum 0))"
  by (simp add: unbound_def accelerateValue_def brakeValue_def getActionValue_def
      split: option.splits)

theorem unbound_action_values_witness:
  "unbound all_unbound ''accelerate'' \<and> unbound all_unbound ''brake'' \<and>
   unbound all_unbound ''turn'' \<and>
   accelerateValue all_unbound all_held all_half = 0 \<and>
   brakeValue all_unbound all_held all_half = 0 \<and>
   getActionValue all_unbound all_held all_half ''turn'' = JNum 0"
  using unbound_action_values [of all_unbound all_held all_half "''turn''"]
  by (simp add: unbound_def all_unbound_def)


section \<open>Inbound frames\<close>

lemmas sock_defs = ready_def set_ready_def close_if_live_def clearInterval_def clear_ping_def
  track_def send_tracked_def ws_send_def open_socket_def socket_readyState_def

lemmas effect_defs = disconnect_def effect_cleanup_def wsUrl_def cleanup_existing_def
  new_WebSocket_def effect_body_def rerun_effect_def connect_def setCustomWsUrl_def js_trim_def
  is_space_def

lemmas handler_defs = registerData_def pingData_def ping_tick_def setInterval_ping_def onopen_def
  onclose_def onerror_def dispatch_def parse_failed_def onmessage_def envelope_def seq_err_def
  requestBatteryLevel_on_def dummy_battery_def returned_def js_minus_def substring_def
  Math_round_def

lemmas sample_defs = rt0_def sample_parse_def pong_frame_def battery_info_def init_def
  after_first_ping_def

lemma dispatch_pong:
  assumes "js_get event ''name'' = Inr (JStr ''pong'')"
    and "js_get event ''data'' = Inr d"
    and "js_get d ''sentAt'' = Inr (JNum T)"
  shows "dispatch rt now event s = Inr (s\<lparr>pingTime := binary64 (now - T)\<rparr>)"
  using assms by (simp add: dispatch_def seq_err_def js_minus_def)

lemma v_dispatch_pong:
  assumes "js_get event ''name'' = Inr (JStr ''pong'')"
    and "js_get event ''data'' = Inr d"
    and "js_get d ''sentAt'' = Inr (JNum T)"
  shows "v_dispatch rt now event v = Inr (v_setPingTime (binary64 (now - T)) v)"
  using assms by (simp add: v_dispatch_def seq_err_def js_minus_def)

lemma pong_frame_reads:
  "js_get (pong_frame T c) ''name'' = Inr (JStr ''pong'')"
  "js_get (pong_frame T c) ''data'' = Inr (JObj [(''sentAt'', JNum T)])"
  "js_get (JObj [(''sentAt'', JNum T)]) ''sentAt'' = Inr (JNum T)"
  by (simp_all add: pong_frame_def envelope_def)

text \<open>
  C3, as stated, fails. The provider has mounted, its socket has opened and its last
  ping carried \<^verbatim>\<open>sentAt = 1000\<close>; no latency is known yet. A pong with \<^verbatim>\<open>sentAt = 400\<close>
  handled at clock 1040 sets the latency to \<open>640\<close>.
\<close>

theorem pong_matching_counterexample:
  \<open>map_option (last_ping_sentAt 0) after_first_ping = Some (Some (JNum 1000)) \<and>
   map_option pingTime after_first_ping = Some JNull \<and>
   map_option pingTime
     (case after_first_ping of
        None \<Rightarrow> None
      | Some s \<Rightarrow>
          step rt0 (SockMessage 0 1040 ''{"name":"pong","data":{"sentAt":400},"createdAt":990}'') s) =
     Some (JNum 640)\<close>
  by code_simp

text \<open>
  C3, amended. Every inbound pong whose \<^verbatim>\<open>data.sentAt\<close> is a number sets the latency
  to \<^verbatim>\<open>now - data.sentAt\<close>, the number nearest to the difference, whatever frames were
  transmitted before: nothing is compared with the timestamp of a ping. The same holds
  in the status component (there \<^verbatim>\<open>pingTimestampRef\<close> is not read either).
\<close>

theorem pong_is_never_matched:
  assumes "js_get event ''name'' = Inr (JStr ''pong'')"
    and "js_get event ''data'' = Inr d"
    and "js_get d ''sentAt'' = Inr (JNum T)"
  shows "dispatch rt now event (s\<lparr>wire := sent\<rparr>) =
           Inr (s\<lparr>wire := sent, pingTime := binary64 (now - T)\<rparr>) \<and>
         v_dispatch rt now event (v\<lparr>v_mounted := True, v_sent := sent', v_pingTimestampRef := t\<rparr>) =
           Inr (v\<lparr>v_mounted := True, v_sent := sent', v_pingTimestampRef := t,
                  v_pingTime := binary64 (now - T)\<rparr>)"
  using assms
  by (simp add: dispatch_def v_dispatch_def seq_err_def js_minus_def v_setPingTime_def)

theorem pong_is_never_matched_witness:
  "dispatch rt0 1040 (pong_frame 400 990) (init\<lparr>wire := [(0, pingData 1000 1000)]\<rparr>) =
     Inr (init\<lparr>wire := [(0, pingData 1000 1000)], pingTime := JNum 640\<rparr>) \<and>
   v_dispatch rt0 1040 (pong_frame 400 990)
       ((v_init held_pad)\<lparr>v_mounted := True, v_sent := [pingData 1000 1000],
          v_pingTimestampRef := 1000\<rparr>) =
     Inr ((v_init held_pad)\<lparr>v_mounted := True, v_sent := [pingData 1000 1000],
            v_pingTimestampRef := 1000, v_pingTime := JNum 640\<rparr>)"
  using pong_is_never_matched [where event = "pong_frame 400 990"
      and d = "JObj [(''sentAt'', JNum 400)]" and T = 400 and rt = rt0 and now = 1040 and s = init
      and sent = "[(0, pingData 1000 1000)]" and v = "v_init held_pad"
      and sent' = "[pingData 1000 1000]"
      and t = 1000]
    binary64_exact [of 640]
  by (simp add: pong_frame_reads)

text \<open>
  C4, as stated, fails. The provider has mounted and its socket is open. A pong whose
  \<^verbatim>\<open>data.sentAt\<close> is \<^verbatim>\<open>0.1\<close> is handled at clock \<open>1700000000000\<close>, that is \<open>d\<close> after
  the time \<open>T\<close> the frame names, with \<open>T = 3602879701896397 / 2 ^ 55\<close> and
  \<open>d = 1700000000000 - T\<close>. The latency state becomes the number nearest to \<open>d\<close>,
  \<open>3481599999999795 / 2048\<close> (it prints as \<^verbatim>\<open>1699999999999.9\<close>), which is not \<open>d\<close>.
\<close>

theorem inexact_latency_counterexample:
  \<open>map_option pingTime
     (case after_first_ping of
        None \<Rightarrow> None
      | Some s \<Rightarrow>
          step rt0
            (SockMessage 0 (3602879701896397 / 2 ^ 55 + (1700000000000 - 3602879701896397 / 2 ^ 55))
               ''{"name":"pong","data":{"sentAt":0.1},"createdAt":990}'') s) =
     Some (JNum (3481599999999795 / 2048)) \<and>
   JNum (3481599999999795 / 2048) \<noteq> JNum (1700000000000 - 3602879701896397 / 2 ^ 55)\<close>
proof -
  obtain s where s: "after_first_ping = Some s" "socks s \<noteq> []" "ready s 0 = OPEN"
    by (simp add: sample_defs sock_defs effect_defs handler_defs)
  have b: "binary64 (1700000000000 - 3602879701896397 / 2 ^ 55) = JNum (3481599999999795 / 2048)"
    using binary64_between [of 40 "1700000000000 - 3602879701896397 / 2 ^ 55" 6963199999999590]
    by (simp add: round_even_def)
  have p: \<open>JSON_parse rt0 ''{"name":"pong","data":{"sentAt":0.1},"createdAt":990}'' =
      Some (pong_frame (3602879701896397 / 2 ^ 55) 990)\<close>
    by (simp add: rt0_def sample_parse_def)
  have \<open>pingTime (onmessage rt0 1700000000000
      ''{"name":"pong","data":{"sentAt":0.1},"createdAt":990}'' s) =
      JNum (3481599999999795 / 2048)\<close>
    unfolding onmessage_def p using b
    by (simp add: dispatch_pong [OF pong_frame_reads])
  then show ?thesis
    unfolding s(1) using s(2,3) by simp
qed

text \<open>
  C4, amended. A pong frame whose \<^verbatim>\<open>data.sentAt\<close> is the number \<open>T\<close>, handled at clock
  \<open>now\<close>, leaves the latency state at \<^verbatim>\<open>now - T\<close> as the language computes it, the number
  nearest to the difference: the one slot \<^verbatim>\<open>pingTime\<close> is overwritten, and but for the
  record of the received frame in the debug sink nothing else changes. When \<open>T\<close> and the
  clock \<open>T + d\<close> are both counts of milliseconds, the latency state is exactly \<open>d\<close>. The
  status component does the same while it is mounted.
\<close>

theorem pong_sets_latency:
  assumes "JSON_parse rt raw = Some event"
    and "js_get event ''name'' = Inr (JStr ''pong'')"
    and "js_get event ''data'' = Inr d"
    and "js_get d ''sentAt'' = Inr (JNum T)"
  shows "onmessage rt now raw s =
           (track (TrackWsMessage ''received'' event) s)\<lparr>pingTime := binary64 (now - T)\<rparr> \<and>
         v_onmessage rt now raw (v\<lparr>v_mounted := True\<rparr>) =
           v\<lparr>v_mounted := True, v_pingTime := binary64 (now - T)\<rparr> \<and>
         (timestamp T \<and> timestamp (T + delta) \<longrightarrow>
            onmessage rt (T + delta) raw s =
              (track (TrackWsMessage ''received'' event) s)\<lparr>pingTime := JNum delta\<rparr> \<and>
            v_onmessage rt (T + delta) raw (v\<lparr>v_mounted := True\<rparr>) =
              v\<lparr>v_mounted := True, v_pingTime := JNum delta\<rparr>)"
proof -
  have "timestamp T \<and> timestamp (T + delta) \<longrightarrow> binary64 (T + delta - T) = JNum delta"
    using binary64_timestamps [of T delta] by blast
  then show ?thesis
    using assms
    by (simp add: onmessage_def v_onmessage_def dispatch_pong v_dispatch_pong seq_err_def
        v_setPingTime_def)
qed

text \<open>
  A pong that names \<open>963\<close>, handled at clock \<open>963 + 37\<close> over a latency state of \<open>12\<close>,
  leaves \<open>37\<close>.
\<close>

theorem pong_sets_latency_witness:
  \<open>timestamp 963 \<and> timestamp (963 + 37) \<and>
   pingTime (onmessage rt0 (963 + 37) ''{"name":"pong","data":{"sentAt":963},"createdAt":990}''
      (init\<lparr>pingTime := JNum 12\<rparr>)) = JNum 37 \<and>
   v_pingTime (v_onmessage rt0 (963 + 37) ''{"name":"pong","data":{"sentAt":963},"createdAt":990}''
      ((v_init held_pad)\<lparr>v_pingTime := JNum 12, v_mounted := True\<rparr>)) = JNum 37\<close>
  using pong_sets_latency [where rt = rt0
      and raw = \<open>''{"name":"pong","data":{"sentAt":963},"createdAt":990}''\<close>
      and event = "pong_frame 963 990" and d = "JObj [(''sentAt'', JNum 963)]" and T = 963
      and delta = 37 and now = 1000 and s = "init\<lparr>pingTime := JNum 12\<rparr>"
      and v = "(v_init held_pad)\<lparr>v_pingTime := JNum 12\<rparr>"]
    binary64_exact [of 37]
  by (simp add: pong_frame_reads rt0_def sample_parse_def track_def timestamp_def)

text \<open>
  C5. A frame on which \<^verbatim>\<open>JSON.parse\<close> throws is caught: the handler returns, the
  failure goes to \<^verbatim>\<open>console.error\<close> and \<^verbatim>\<open>logError\<close>, and nothing else changes: not
  the status, not a data slot, not a socket (the connection stays as it was), no frame
  is transmitted. The same holds when the parsed value is not an envelope and reading it
  throws, after the record of the received value in the debug sink.
\<close>

theorem malformed_frame_is_dropped:
  "(JSON_parse rt raw = None \<longrightarrow>
      onmessage rt now raw s =
        s\<lparr>debug := debug s @
            [ConsoleError ''Error parsing websocket message:'' (LErr SyntaxError),
             LogError ''Error parsing WebSocket message''
               [(''error'', LErr SyntaxError), (''rawMessage'', LStr raw)]]\<rparr> \<and>
      (w < length (socks s) \<and> ready s w = OPEN \<longrightarrow>
         step rt (SockMessage w now raw) s = Some (onmessage rt now raw s) \<and>
         ready (onmessage rt now raw s) w = OPEN)) \<and>
   (JSON_parse rt raw = Some event \<and>
    dispatch rt now event (track (TrackWsMessage ''received'' event) s) = Inl e \<longrightarrow>
      onmessage rt now raw s =
        s\<lparr>debug := debug s @
            [TrackWsMessage ''received'' event,
             ConsoleError ''Error parsing websocket message:'' (LErr e),
             LogError ''Error parsing WebSocket message''
               [(''error'', LErr e), (''rawMessage'', LStr raw)]]\<rparr>)"
  by (simp add: onmessage_def parse_failed_def track_def ready_def)

theorem malformed_frame_is_dropped_witness:
  "(case after_first_ping of
      None \<Rightarrow> False
    | Some s \<Rightarrow>
        step rt0 (SockMessage 0 1040 ''not json'') s =
          Some (s\<lparr>debug := debug s @
                  [ConsoleError ''Error parsing websocket message:'' (LErr SyntaxError),
                   LogError ''Error parsing WebSocket message''
                     [(''error'', LErr SyntaxError), (''rawMessage'', LStr ''not json'')]]\<rparr>) \<and>
        onmessage rt0 1040 ''null'' s =
          s\<lparr>debug := debug s @
              [TrackWsMessage ''received'' JNull,
               ConsoleError ''Error parsing websocket message:'' (LErr TypeError),
               LogError ''Error parsing WebSocket message''
                 [(''error'', LErr TypeError), (''rawMessage'', LStr ''null'')]]\<rparr>)"
proof -
  obtain s where s: "after_first_ping = Some s" "socks s \<noteq> []" "ready s 0 = OPEN"
    by (simp add: sample_defs sock_defs effect_defs handler_defs)
  have p: "JSON_parse rt0 ''not json'' = None" "JSON_parse rt0 ''null'' = Some JNull"
    by (simp_all add: rt0_def sample_parse_def)
  have d: "dispatch rt0 1040 JNull (track (TrackWsMessage ''received'' JNull) s) = Inl TypeError"
    by (simp add: dispatch_def seq_err_def)
  show ?thesis
    unfolding s(1)
    using malformed_frame_is_dropped [where rt = rt0 and raw = "''not json''" and now = 1040
        and s = s and w = 0 and event = JNull and e = TypeError]
      malformed_frame_is_dropped [where rt = rt0 and raw = "''null''" and now = 1040
        and s = s and w = 0 and event = JNull and e = TypeError] s(2,3) p d
    by simp
qed


section \<open>Commands while the socket is not open\<close>

lemmas command_defs = sendGamepadState_def sendRobotCommand_def requestBatteryLevel_def
  requestBatteryLevel_on_def updateSettings_def speakText_def playSound_def restartCameraFeed_def
  scanNetworks_def updateNetwork_def sendGptCommand_def not_connected_def dummy_battery_def

lemma Math_round_dummy:
  assumes "0 \<le> rnd" and "rnd < 1"
  shows "65 \<le> \<lfloor>65 + rnd * 25 + 1 / 2\<rfloor> \<and> \<lfloor>65 + rnd * 25 + 1 / 2 :: real\<rfloor> \<le> 90"
proof
  have "(65 :: real) \<le> 65 + rnd * 25 + 1 / 2"
    using assms by simp
  then show "65 \<le> \<lfloor>65 + rnd * 25 + 1 / 2\<rfloor>"
    by (simp add: le_floor_iff)
  have "65 + rnd * 25 + 1 / 2 < (91 :: real)"
    using assms by simp
  then have "\<lfloor>65 + rnd * 25 + 1 / 2\<rfloor> < 91"
    by (simp add: floor_less_iff)
  then show "\<lfloor>65 + rnd * 25 + 1 / 2\<rfloor> \<le> 90"
    by simp
qed

text \<open>
  C8, as stated, fails. After the mount the socket is connecting, not connected;
  \<^verbatim>\<open>sendGamepadState\<close> then changes nothing at all, and \<^verbatim>\<open>requestBatteryLevel\<close> sets a
  battery level instead: in both cases the sinks stay empty, nothing is reported.
\<close>

theorem silent_skip_counterexample:
  "run rt0 [Mount, SendGamepadState 5 (JObj [(''speed'', JNum 1)])] init = run rt0 [Mount] init \<and>
   map_option status (run rt0 [Mount] init) = Some Connecting \<and>
   map_option debug (run rt0 [Mount] init) = Some [] \<and>
   map_option debug (run rt0 [Mount, RequestBatteryLevel 5 5 (1 / 2)] init) = Some [] \<and>
   map_option batteryLevel (run rt0 [Mount, RequestBatteryLevel 5 5 (1 / 2)] init) =
     Some (JNum 78)"
  by code_simp

text \<open>
  C8, amended. While the socket is missing or not open, every command function returns
  without transmitting, without registering a timer and without touching a socket.
  \<^verbatim>\<open>sendRobotCommand\<close> (and \<^verbatim>\<open>restartCameraFeed\<close> through it), \<^verbatim>\<open>updateSettings\<close>,
  \<^verbatim>\<open>speakText\<close>, \<^verbatim>\<open>playSound\<close>, \<^verbatim>\<open>scanNetworks\<close>, \<^verbatim>\<open>updateNetwork\<close> and \<^verbatim>\<open>sendGptCommand\<close>
  report to \<^verbatim>\<open>logError\<close>, with a message that names the action, the reason and the
  socket's \<^verbatim>\<open>readyState\<close>. \<^verbatim>\<open>sendGamepadState\<close> reports nothing and changes nothing;
  \<^verbatim>\<open>requestBatteryLevel\<close> reports nothing and sets a dummy battery level.
\<close>

theorem send_while_not_open:
  assumes "open_socket s (socket s) = None"
  shows
    "sendGamepadState now g s = Inr s \<and>
     requestBatteryLevel t1 t2 rnd s = Inr (dummy_battery rnd s) \<and>
     debug (dummy_battery rnd s) = debug s \<and>
     sendRobotCommand t1 t2 c s =
       Inr (s\<lparr>debug := debug s @
              [LogError ''Cannot send robot command''
                 [(''reason'', LStr ''Socket not connected''),
                  (''command'', LStr (command_name c)),
                  (''readyState'', LReady (map_option (ready s) (socket s)))]]\<rparr>) \<and>
     restartCameraFeed t1 t2 s = sendRobotCommand t1 t2 restart_camera_feed s \<and>
     updateSettings t1 t2 v s = Inr (not_connected ''Cannot send settings update'' s) \<and>
     speakText t1 t2 txt s = Inr (not_connected ''Cannot send text to speak'' s) \<and>
     playSound t1 t2 sound s = Inr (not_connected ''Cannot send sound to play'' s) \<and>
     scanNetworks t1 t2 s = Inr (not_connected ''Cannot send network scan request'' s) \<and>
     updateNetwork t1 t2 a d s = Inr (not_connected ''Cannot send network update'' s) \<and>
     sendGptCommand t1 t2 p cam s = Inr (not_connected ''Cannot send GPT command'' s) \<and>
     not_connected what s =
       s\<lparr>debug := debug s @
           [LogError what
              [(''reason'', LStr ''Socket not connected''),
               (''readyState'', LReady (map_option (ready s) (socket s)))]]\<rparr> \<and>
     skipped s (sendGamepadState now g s) \<and>
     skipped s (requestBatteryLevel t1 t2 rnd s) \<and>
     skipped s (sendRobotCommand t1 t2 c s) \<and>
     skipped s (restartCameraFeed t1 t2 s) \<and>
     skipped s (updateSettings t1 t2 v s) \<and>
     skipped s (speakText t1 t2 txt s) \<and>
     skipped s (playSound t1 t2 sound s) \<and>
     skipped s (scanNetworks t1 t2 s) \<and>
     skipped s (updateNetwork t1 t2 a d s) \<and>
     skipped s (sendGptCommand t1 t2 p cam s)"
  using assms by (simp add: command_defs skipped_def track_def socket_readyState_def)

theorem send_while_not_open_witness:
  "open_socket init (socket init) = None \<and>
   sendRobotCommand 7 8 emergency_stop init =
     Inr (init\<lparr>debug :=
            [LogError ''Cannot send robot command''
               [(''reason'', LStr ''Socket not connected''),
                (''command'', LStr ''emergency_stop''),
                (''readyState'', LReady None)]]\<rparr>) \<and>
   scanNetworks 7 8 init =
     Inr (init\<lparr>debug :=
            [LogError ''Cannot send network scan request''
               [(''reason'', LStr ''Socket not connected''), (''readyState'', LReady None)]]\<rparr>) \<and>
   sendGamepadState 7 (JObj []) init = Inr init"
proof -
  have h: "open_socket init (socket init) = None"
    by (simp add: open_socket_def init_def)
  show ?thesis
    using h send_while_not_open [OF h, where c = emergency_stop and ?t1.0 = 7 and ?t2.0 = 8
        and now = 7 and g = "JObj []" and what = "''Cannot send network scan request''"]
    by (simp add: init_def)
qed

text \<open>
  C10. While the socket is missing or not open, \<^verbatim>\<open>requestBatteryLevel\<close> transmits
  nothing; it sets \<^verbatim>\<open>batteryLevel\<close> to an integer \<open>L\<close> with \<open>65 \<le> L \<le> 90\<close>, computed from
  the draw of \<^verbatim>\<open>Math.random()\<close>, and dispatches \<^verbatim>\<open>debug:battery-update\<close> with that level:
  the very state, slots and events, that the dispatcher reaches from a \<^verbatim>\<open>battery_info\<close>
  frame with level \<open>L\<close>.
\<close>

theorem dummy_battery_when_not_open:
  assumes "open_socket s (socket s) = None" and "0 \<le> rnd" and "rnd < 1"
  shows
    "\<exists>L :: int. 65 \<le> L \<and> L \<le> 90 \<and>
       requestBatteryLevel t1 t2 rnd s =
         Inr (s\<lparr>batteryLevel := JNum (of_int L),
                events := events s @
                  [(''debug:battery-update'', JObj [(''level'', JNum (of_int L))])]\<rparr>) \<and>
       skipped s (requestBatteryLevel t1 t2 rnd s) \<and>
       dispatch rt now (battery_info (JNum (of_int L)) c) s = requestBatteryLevel t1 t2 rnd s"
proof (intro exI conjI)
  show "65 \<le> \<lfloor>65 + rnd * 25 + 1 / 2\<rfloor>" and "\<lfloor>65 + rnd * 25 + 1 / 2\<rfloor> \<le> 90"
    using Math_round_dummy [OF assms(2,3)] by simp_all
  show "requestBatteryLevel t1 t2 rnd s =
      Inr (s\<lparr>batteryLevel := JNum (of_int \<lfloor>65 + rnd * 25 + 1 / 2\<rfloor>),
             events := events s @
               [(''debug:battery-update'',
                 JObj [(''level'', JNum (of_int \<lfloor>65 + rnd * 25 + 1 / 2\<rfloor>))])]\<rparr>)"
    using assms(1) by (simp add: command_defs Math_round_def)
  then show "dispatch rt now (battery_info (JNum (of_int \<lfloor>65 + rnd * 25 + 1 / 2\<rfloor>)) c) s =
      requestBatteryLevel t1 t2 rnd s"
    by (simp add: dispatch_def battery_info_def envelope_def seq_err_def)
  show "skipped s (requestBatteryLevel t1 t2 rnd s)"
    using assms(1) by (simp add: command_defs skipped_def)
qed

text \<open>Both ends of the range are reached: a draw of \<open>0\<close> gives 65, a draw of \<open>0.99\<close> gives 90.\<close>

theorem dummy_battery_when_not_open_witness:
  "open_socket init (socket init) = None \<and>
   (\<exists>L :: int. 65 \<le> L \<and> L \<le> 90 \<and>
      map_sum id batteryLevel (requestBatteryLevel 7 8 (1 / 2) init) = Inr (JNum (of_int L)) \<and>
      map_sum id wire (requestBatteryLevel 7 8 (1 / 2) init) = Inr []) \<and>
   map_sum id batteryLevel (requestBatteryLevel 7 8 0 init) = Inr (JNum 65) \<and>
   map_sum id batteryLevel (requestBatteryLevel 7 8 (99 / 100) init) = Inr (JNum 90) \<and>
   map_sum id events (requestBatteryLevel 7 8 (99 / 100) init) =
     Inr [(''debug:battery-update'', JObj [(''level'', JNum 90)])]"
proof -
  have h: "open_socket init (socket init) = None"
    by (simp add: open_socket_def init_def)
  obtain L :: int where "65 \<le> L" "L \<le> 90"
    "requestBatteryLevel 7 8 (1 / 2) init =
       Inr (init\<lparr>batteryLevel := JNum (of_int L),
              events := events init @
                [(''debug:battery-update'', JObj [(''level'', JNum (of_int L))])]\<rparr>)"
    using dummy_battery_when_not_open [OF h, of "1 / 2" 7 8 rt0 0 0] by auto
  moreover have "\<lfloor>65 + 99 * 25 / 100 + 1 / 2 :: real\<rfloor> = 90" "\<lfloor>131 / 2 :: real\<rfloor> = 65"
    by (simp_all add: floor_eq_iff)
  ultimately show ?thesis
    using h by (auto simp add: command_defs Math_round_def init_def)
qed


section \<open>The invariants hold along every run\<close>

lemma live_is_current_cong:
  "socks s' = socks s \<Longrightarrow> effect_ws s' = effect_ws s \<Longrightarrow>
   live_is_current s' = live_is_current s"
  by (simp add: live_is_current_def ready_def)

lemma one_timer_cong:
  "socks s' = socks s \<Longrightarrow> effect_ws s' = effect_ws s \<Longrightarrow> timers s' = timers s \<Longrightarrow>
   pingIntervalRef s' = pingIntervalRef s \<Longrightarrow> one_timer s' = one_timer s"
  by (simp add: one_timer_def ready_def)

lemma closures_ok_cong:
  "socks s' = socks s \<Longrightarrow> socket s' = socket s \<Longrightarrow> socketRef s' = socketRef s \<Longrightarrow>
   effect_ws s' = effect_ws s \<Longrightarrow> closures_ok s' = closures_ok s"
  by (simp add: closures_ok_def)

lemma wire_ok_cong:
  "socks s' = socks s \<Longrightarrow> wire s' = wire s \<Longrightarrow> wire_ok s' = wire_ok s"
  by (simp add: wire_ok_def ready_def frames_on_def)

lemma wire_ok_append:
  assumes "wire_ok s" and "socks s' = socks s" and "wire s' = wire s @ fs"
    and "\<forall>f \<in> set fs. fst f < length (socks s) \<and> ready s (fst f) = OPEN"
  shows "wire_ok s'"
proof -
  have r: "ready s' w = ready s w" for w
    using assms(2) by (simp add: ready_def)
  have fr: "frames_on w s' = frames_on w s @ map snd (filter (\<lambda>f. fst f = w) fs)" for w
    using assms(3) by (rule frames_on_append)
  have keep: "frames_on w s' = frames_on w s" if "frames_on w s = []" for w
  proof -
    have "filter (\<lambda>f. fst f = w) fs = []"
    proof (rule ccontr)
      assume "filter (\<lambda>f. fst f = w) fs \<noteq> []"
      then obtain f where "f \<in> set fs" "fst f = w"
        by (meson filter_False)
      then have "w < length (socks s)" "ready s w = OPEN"
        using assms(4) by auto
      then show False
        using assms(1) that by (simp add: wire_ok_def)
    qed
    then show ?thesis by (simp add: fr)
  qed
  have a: "\<forall>f \<in> set (wire s'). fst f < length (socks s') \<and> ready s' (fst f) \<noteq> CONNECTING"
    using assms by (auto simp add: wire_ok_def r)
  have b: "\<forall>w < length (socks s'). ready s' w = OPEN \<longrightarrow> frames_on w s' \<noteq> []"
    using assms(1,2) by (simp add: wire_ok_def r fr)
  have c: "\<exists>x n. hd (frames_on w s') = registerData x n" if "frames_on w s' \<noteq> []" for w
  proof (cases "frames_on w s = []")
    case True
    then show ?thesis using keep [of w] that by simp
  next
    case False
    then have "hd (frames_on w s') = hd (frames_on w s)"
      by (simp add: fr)
    then show ?thesis
      using assms(1) False by (simp add: wire_ok_def)
  qed
  show ?thesis
    unfolding wire_ok_def using a b c by blast
qed

lemma sends_only_inv:
  assumes "sends_only s s'" and "inv s"
  shows "inv s'"
proof -
  from assms(1) obtain fs where eq: "socks s' = socks s" "timers s' = timers s"
      "pingIntervalRef s' = pingIntervalRef s" "effect_ws s' = effect_ws s" "socket s' = socket s"
      "socketRef s' = socketRef s"
    and w: "wire s' = wire s @ fs"
      "\<forall>f \<in> set fs. fst f < length (socks s) \<and> ready s (fst f) = OPEN"
    by (auto simp add: sends_only_def conn_def)
  have "wire_ok s"
    using assms(2) by (simp add: inv_def)
  then have "wire_ok s'"
    using eq(1) w by (rule wire_ok_append)
  then show ?thesis
    using assms(2) live_is_current_cong [OF eq(1,4)] one_timer_cong [OF eq(1,4,2,3)]
      closures_ok_cong [OF eq(1,5,6,4)]
    by (simp add: inv_def)
qed

lemma sends_only_refl: "sends_only s s"
  by (simp add: sends_only_def)

lemma sends_only_same:
  "conn s' = conn s \<Longrightarrow> wire s' = wire s \<Longrightarrow> sends_only s s'"
  by (simp add: sends_only_def)

lemma send_tracked_open:
  "ready s w = OPEN \<Longrightarrow>
   send_tracked w m s = Inr (track (TrackWsMessage ''sent'' m) (s\<lparr>wire := wire s @ [(w, m)]\<rparr>))"
  by (simp add: send_tracked_def ws_send_def)

lemma send_tracked_sends_only:
  "w < length (socks s) \<Longrightarrow> ready s w = OPEN \<Longrightarrow> send_tracked w m s = Inr s' \<Longrightarrow>
   sends_only s s'"
  by (simp add: send_tracked_open sends_only_def conn_def track_def) auto

lemma open_socket_Some:
  "open_socket s sk = Some w \<longleftrightarrow> sk = Some w \<and> ready s w = OPEN"
  by (auto simp add: open_socket_def split: option.splits)

lemma guarded_send:
  assumes "closures_ok s"
    and "(case open_socket s (socket s) of Some w \<Rightarrow> send_tracked w m s | None \<Rightarrow> Inr t) = Inr s'"
    and "conn t = conn s" and "wire t = wire s"
  shows "sends_only s s'"
proof (cases "open_socket s (socket s)")
  case None
  then show ?thesis using assms by (simp add: sends_only_same)
next
  case (Some w)
  then have "socket s = Some w" "ready s w = OPEN"
    by (simp_all add: open_socket_Some)
  moreover from this have "w < length (socks s)"
    using assms(1) by (simp add: closures_ok_def)
  ultimately show ?thesis
    using assms(2) Some by (simp add: send_tracked_sends_only)
qed

lemma conn_simps [simp]:
  "conn (track e s) = conn s"
  "conn (s\<lparr>status := x4\<rparr>) = conn s"
  "conn (s\<lparr>debug := x2\<rparr>) = conn s"
  "conn (s\<lparr>events := x3\<rparr>) = conn s"
  "conn (s\<lparr>batteryLevel := x5\<rparr>) = conn s"
  "conn (s\<lparr>pingTime := y1\<rparr>) = conn s"
  "conn (s\<lparr>sensorData := y2\<rparr>) = conn s"
  "conn (s\<lparr>cameraStatus := y3\<rparr>) = conn s"
  "conn (s\<lparr>settings := y4\<rparr>) = conn s"
  "conn (s\<lparr>commandResponse := y5\<rparr>) = conn s"
  "conn (s\<lparr>reconnectTrigger := x8\<rparr>) = conn s"
  "conn (s\<lparr>customWsUrl := x9\<rparr>) = conn s"
  "conn (dummy_battery rnd s) = conn s"
  "conn (not_connected what s) = conn s"
  by (simp_all add: conn_def track_def dummy_battery_def not_connected_def)

lemma wire_simps [simp]:
  "wire (dummy_battery rnd s) = wire s"
  "wire (not_connected what s) = wire s"
  by (simp_all add: track_def dummy_battery_def not_connected_def)

lemma commands_send_only:
  assumes "closures_ok s"
  shows "sendGamepadState now g s = Inr s' \<Longrightarrow> sends_only s s'"
    and "sendRobotCommand t1 t2 c s = Inr s' \<Longrightarrow> sends_only s s'"
    and "requestBatteryLevel t1 t2 rnd s = Inr s' \<Longrightarrow> sends_only s s'"
    and "updateSettings t1 t2 v s = Inr s' \<Longrightarrow> sends_only s s'"
    and "speakText t1 t2 txt s = Inr s' \<Longrightarrow> sends_only s s'"
    and "playSound t1 t2 sound s = Inr s' \<Longrightarrow> sends_only s s'"
    and "restartCameraFeed t1 t2 s = Inr s' \<Longrightarrow> sends_only s s'"
    and "scanNetworks t1 t2 s = Inr s' \<Longrightarrow> sends_only s s'"
    and "updateNetwork t1 t2 a d s = Inr s' \<Longrightarrow> sends_only s s'"
    and "sendGptCommand t1 t2 p cam s = Inr s' \<Longrightarrow> sends_only s s'"
proof -
  note g = guarded_send [OF assms]
  show "sendGamepadState now g s = Inr s' \<Longrightarrow> sends_only s s'"
    unfolding sendGamepadState_def by (erule g) simp_all
  show "sendRobotCommand t1 t2 c s = Inr s' \<Longrightarrow> sends_only s s'" for c
    unfolding sendRobotCommand_def by (erule g) simp_all
  then show "restartCameraFeed t1 t2 s = Inr s' \<Longrightarrow> sends_only s s'"
    unfolding restartCameraFeed_def .
  show "requestBatteryLevel t1 t2 rnd s = Inr s' \<Longrightarrow> sends_only s s'"
    unfolding requestBatteryLevel_def requestBatteryLevel_on_def by (erule g) simp_all
  show "updateSettings t1 t2 v s = Inr s' \<Longrightarrow> sends_only s s'"
    unfolding updateSettings_def by (erule g) simp_all
  show "speakText t1 t2 txt s = Inr s' \<Longrightarrow> sends_only s s'"
    unfolding speakText_def by (erule g) simp_all
  show "playSound t1 t2 sound s = Inr s' \<Longrightarrow> sends_only s s'"
    unfolding playSound_def by (erule g) simp_all
  show "scanNetworks t1 t2 s = Inr s' \<Longrightarrow> sends_only s s'"
    unfolding scanNetworks_def by (erule g) simp_all
  show "updateNetwork t1 t2 a d s = Inr s' \<Longrightarrow> sends_only s s'"
    unfolding updateNetwork_def by (erule g) simp_all
  show "sendGptCommand t1 t2 p cam s = Inr s' \<Longrightarrow> sends_only s s'"
    unfolding sendGptCommand_def by (erule g) simp_all
qed


lemma live_empty_iff:
  "live s = [] \<longleftrightarrow> (\<forall>w < length (socks s). ready s w \<noteq> OPEN \<and> ready s w \<noteq> CONNECTING)"
  by (auto simp add: live_def filter_empty_conv)

lemma snoc_single: "xs @ [m] = [n] \<longleftrightarrow> xs = [] \<and> m = n"
  by (cases xs) simp_all

lemma filter_upt_single:
  "filter P [0..<m] = [n] \<longleftrightarrow> n < m \<and> P n \<and> (\<forall>w < m. w \<noteq> n \<longrightarrow> \<not> P w)"
proof (induction m)
  case 0
  then show ?case by simp
next
  case (Suc m)
  show ?case
  proof (cases "P m")
    case True
    have "filter P [0..<Suc m] = [n] \<longleftrightarrow> filter P [0..<m] = [] \<and> n = m"
      using True by (auto simp add: snoc_single)
    also have "\<dots> \<longleftrightarrow> (\<forall>w < m. \<not> P w) \<and> n = m"
      by (auto simp add: filter_empty_conv)
    also have "\<dots> \<longleftrightarrow> n < Suc m \<and> P n \<and> (\<forall>w < Suc m. w \<noteq> n \<longrightarrow> \<not> P w)"
      using True by (metis less_Suc_eq less_irrefl)
    finally show ?thesis .
  next
    case False
    have "filter P [0..<Suc m] = [n] \<longleftrightarrow> filter P [0..<m] = [n]"
      using False by simp
    also have "\<dots> \<longleftrightarrow> n < m \<and> P n \<and> (\<forall>w < m. w \<noteq> n \<longrightarrow> \<not> P w)"
      by (rule Suc.IH)
    also have "\<dots> \<longleftrightarrow> n < Suc m \<and> P n \<and> (\<forall>w < Suc m. w \<noteq> n \<longrightarrow> \<not> P w)"
      using False by (metis less_Suc_eq)
    finally show ?thesis .
  qed
qed

lemma live_single_iff:
  "live s = [n] \<longleftrightarrow>
     n < length (socks s) \<and> (ready s n = OPEN \<or> ready s n = CONNECTING) \<and>
     (\<forall>w < length (socks s). w \<noteq> n \<longrightarrow> ready s w \<noteq> OPEN \<and> ready s w \<noteq> CONNECTING)"
  unfolding live_def filter_upt_single by blast

lemma live_is_currentD:
  "live_is_current s \<Longrightarrow> w < length (socks s) \<Longrightarrow>
   ready s w = OPEN \<or> ready s w = CONNECTING \<Longrightarrow> effect_ws s = Some w"
  unfolding live_is_current_def by blast

lemma live_cases:
  assumes "live_is_current s"
  shows "live s = [] \<or> (\<exists>n. effect_ws s = Some n \<and> live s = [n])"
proof (cases "live s = []")
  case True
  then show ?thesis by simp
next
  case False
  then obtain n where n: "n < length (socks s)" "ready s n = OPEN \<or> ready s n = CONNECTING"
    unfolding live_empty_iff by blast
  then have e: "effect_ws s = Some n"
    using assms by (simp add: live_is_currentD)
  have "ready s w \<noteq> OPEN \<and> ready s w \<noteq> CONNECTING"
    if "w < length (socks s)" and "w \<noteq> n" for w
  proof (rule ccontr)
    assume "\<not> (ready s w \<noteq> OPEN \<and> ready s w \<noteq> CONNECTING)"
    then have "effect_ws s = Some w"
      using assms that(1) by (simp add: live_is_currentD)
    then show False
      using e that(2) by simp
  qed
  then have "live s = [n]"
    unfolding live_single_iff using n by blast
  then show ?thesis
    using e by simp
qed

lemma live_le_one:
  assumes "live_is_current s"
  shows "length (live s) \<le> 1"
  using live_cases [OF assms] by auto

lemma set_ready_closed_inv:
  assumes "inv s" and "r = CLOSING \<or> r = CLOSED"
  shows "inv (set_ready w r s)"
proof -
  have "live_is_current (set_ready w r s)"
    using assms by (auto simp add: inv_def live_is_current_def)
  moreover have "one_timer (set_ready w r s)"
    using assms by (auto simp add: inv_def one_timer_def)
  moreover have "wire_ok (set_ready w r s)"
    using assms by (auto simp add: inv_def wire_ok_def)
  moreover have "closures_ok (set_ready w r s)"
    using assms by (auto simp add: inv_def closures_ok_def)
  ultimately show ?thesis
    by (simp add: inv_def)
qed

lemma close_if_live_inv: "inv s \<Longrightarrow> inv (close_if_live k s)"
  by (simp add: close_if_live_def set_ready_closed_inv)

lemma clear_ping_inv:
  assumes "inv s"
  shows "inv (clear_ping s)"
proof -
  have "one_timer (clear_ping s)"
    using assms by (simp add: inv_def one_timer_def timers_clear_ping)
  moreover have "live_is_current (clear_ping s) = live_is_current s"
    by (rule live_is_current_cong) simp_all
  moreover have "wire_ok (clear_ping s) = wire_ok s"
    by (rule wire_ok_cong) simp_all
  moreover have "closures_ok (clear_ping s) = closures_ok s"
    by (rule closures_ok_cong) simp_all
  ultimately show ?thesis
    using assms by (simp add: inv_def)
qed

lemma same_conn_inv:
  "inv s \<Longrightarrow> conn s' = conn s \<Longrightarrow> wire s' = wire s \<Longrightarrow> inv s'"
  using sends_only_inv sends_only_same by blast

lemma disconnect_inv: "inv s \<Longrightarrow> inv (disconnect s)"
  by (simp add: disconnect_def close_if_live_inv split: option.splits)

lemma effect_cleanup_inv: "inv s \<Longrightarrow> inv (effect_cleanup s)"
  by (simp add: effect_cleanup_def close_if_live_inv clear_ping_inv split: option.splits)

lemma cleanup_existing_inv: "inv s \<Longrightarrow> inv (cleanup_existing s)"
  by (simp add: cleanup_existing_def close_if_live_inv clear_ping_inv split: option.splits)

lemma onclose_inv: "inv s \<Longrightarrow> inv (onclose s)"
  unfolding onclose_def
  by (rule clear_ping_inv, rule same_conn_inv [of s]) simp_all

lemma onerror_inv: "inv s \<Longrightarrow> inv (onerror s)"
  unfolding onerror_def by (rule same_conn_inv [of s]) simp_all

text \<open>After the pending cleanup no socket is live and no interval is registered.\<close>

lemma live_close_if_live:
  "live s = [] \<Longrightarrow> live (close_if_live k s) = []"
  by (simp add: live_empty_iff ready_close_if_live)

lemma live_clear_ping [simp]: "live (clear_ping s) = live s"
  by (simp add: live_def)

lemma live_update [simp]:
  "live (s\<lparr>status := x1\<rparr>) = live s"
  "live (s\<lparr>reconnectTrigger := x2\<rparr>) = live s"
  "live (s\<lparr>customWsUrl := x3\<rparr>) = live s"
  "live (s\<lparr>timers := x4\<rparr>) = live s"
  "live (s\<lparr>pingIntervalRef := x5\<rparr>) = live s"
  by (simp_all add: live_def)

lemma one_timer_none:
  "one_timer s \<Longrightarrow> effect_ws s = None \<Longrightarrow> timers s = []"
  unfolding one_timer_def by auto

lemma effect_cleanup_quiet:
  assumes "inv s"
  shows "live (effect_cleanup s) = [] \<and> timers (effect_cleanup s) = []"
proof (cases "effect_ws s")
  case None
  have "live s = []"
    using live_cases [of s] assms None by (simp add: inv_def)
  moreover have "timers s = []"
    using assms None by (simp add: inv_def one_timer_none)
  ultimately show ?thesis
    using None by (simp add: effect_cleanup_def)
next
  case (Some w)
  have c: "live_is_current s"
    using assms by (simp add: inv_def)
  have "ready (close_if_live w (clear_ping s)) k \<noteq> OPEN \<and>
        ready (close_if_live w (clear_ping s)) k \<noteq> CONNECTING"
    if "k < length (socks s)" for k
  proof (cases "ready s k = OPEN \<or> ready s k = CONNECTING")
    case True
    then have "k = w"
      using live_is_currentD [OF c that] Some by simp
    then show ?thesis
      using True that by (simp add: ready_close_if_live)
  next
    case False
    then show ?thesis
      by (simp add: ready_close_if_live)
  qed
  then have "live (close_if_live w (clear_ping s)) = []"
    by (simp add: live_empty_iff)
  moreover have "timers (close_if_live w (clear_ping s)) = []"
    using assms by (simp add: inv_def timers_clear_ping)
  ultimately show ?thesis
    using Some by (simp add: effect_cleanup_def)
qed

lemma cleanup_existing_quiet:
  assumes "live s = []" and "timers s = []"
  shows "live (cleanup_existing s) = [] \<and> timers (cleanup_existing s) = []"
  using assms
  by (auto simp add: cleanup_existing_def live_close_if_live clear_ping_def clearInterval_def
      split: option.splits)

lemma new_WebSocket_fields [simp]:
  "length (socks (new_WebSocket u s)) = Suc (length (socks s))"
  "timers (new_WebSocket u s) = timers s"
  "pingIntervalRef (new_WebSocket u s) = pingIntervalRef s"
  "effect_ws (new_WebSocket u s) = Some (length (socks s))"
  "socket (new_WebSocket u s) = Some (length (socks s))"
  "socketRef (new_WebSocket u s) = Some (length (socks s))"
  "wire (new_WebSocket u s) = wire s"
  "frames_on k (new_WebSocket u s) = frames_on k s"
  "ready (new_WebSocket u s) (length (socks s)) = CONNECTING"
  "render_socket (socks (new_WebSocket u s) ! length (socks s)) = socket s"
  by (simp_all add: new_WebSocket_def ready_def frames_on_def)

lemma new_WebSocket_old [simp]:
  "k < length (socks s) \<Longrightarrow> ready (new_WebSocket u s) k = ready s k"
  "k < length (socks s) \<Longrightarrow>
   render_socket (socks (new_WebSocket u s) ! k) = render_socket (socks s ! k)"
  by (simp_all add: new_WebSocket_def ready_def nth_append)

lemma new_WebSocket_inv:
  assumes "inv s" and "live s = []" and "timers s = []"
  shows "inv (new_WebSocket u s)" and "live (new_WebSocket u s) = [length (socks s)]"
proof -
  have q: "\<forall>w < length (socks s). ready s w \<noteq> OPEN \<and> ready s w \<noteq> CONNECTING"
    using assms(2) by (simp add: live_empty_iff)
  have "live_is_current (new_WebSocket u s)"
    using q by (auto simp add: live_is_current_def less_Suc_eq)
  moreover have "one_timer (new_WebSocket u s)"
    using assms(3) by (simp add: one_timer_def)
  moreover have "wire_ok (new_WebSocket u s)"
    using assms(1) by (auto simp add: inv_def wire_ok_def less_Suc_eq)
  moreover have "closures_ok (new_WebSocket u s)"
    using assms(1) by (auto simp add: inv_def closures_ok_def less_Suc_eq)
  ultimately show "inv (new_WebSocket u s)"
    by (simp add: inv_def)
  show "live (new_WebSocket u s) = [length (socks s)]"
    using q by (auto simp add: live_single_iff less_Suc_eq)
qed

lemma cleanup_length [simp]:
  "length (socks (cleanup_existing s)) = length (socks s)"
  "length (socks (effect_cleanup s)) = length (socks s)"
  "length (socks (disconnect s)) = length (socks s)"
  by (simp_all add: cleanup_existing_def effect_cleanup_def disconnect_def split: option.splits)

text \<open>The effect, run on a state with no live socket and no interval.\<close>

lemma effect_body_quiet:
  assumes "inv s" and "live s = []" and "timers s = []" and "effect_body rt s = Inr s'"
  shows "inv s'" and "live s' = [length (socks s)]" and "timers s' = []"
    and "length (socks s') = Suc (length (socks s))"
proof -
  let ?c = "(cleanup_existing s)\<lparr>status := Connecting\<rparr>"
  have s': "s' = new_WebSocket (wsUrl rt s) ?c"
    using assms(4) by (simp add: effect_body_def split: if_splits)
  have c: "inv ?c"
    by (rule same_conn_inv [OF cleanup_existing_inv [OF assms(1)]]) simp_all
  have q: "live ?c = []" "timers ?c = []"
    using cleanup_existing_quiet [OF assms(2,3)] by simp_all
  show "inv s'" and "live s' = [length (socks s)]"
    using new_WebSocket_inv [OF c q] by (simp_all add: s')
  show "timers s' = []" and "length (socks s') = Suc (length (socks s))"
    using q by (simp_all add: s')
qed

lemma rerun_effect_inv:
  assumes "inv s" and "rerun_effect rt s = Inr s'"
  shows "inv s'" and "live s' = [length (socks s)]" and "timers s' = []"
    and "length (socks s') = Suc (length (socks s))"
proof -
  note e = effect_body_quiet [OF effect_cleanup_inv [OF assms(1)]
      effect_cleanup_quiet [OF assms(1), THEN conjunct1]
      effect_cleanup_quiet [OF assms(1), THEN conjunct2]
      assms(2) [unfolded rerun_effect_def]]
  show "inv s'" and "live s' = [length (socks s)]" and "timers s' = []"
    and "length (socks s') = Suc (length (socks s))"
    using e by simp_all
qed


text \<open>The open handler.\<close>

lemma opened_fields [simp]:
  "socks (opened w now rnd36 rnd s) = socks s"
  "timers (opened w now rnd36 rnd s) = timers s @ [(next_handle s, \<lparr>pings = w, delay = 500\<rparr>)]"
  "pingIntervalRef (opened w now rnd36 rnd s) = Some (next_handle s)"
  "effect_ws (opened w now rnd36 rnd s) = effect_ws s"
  "socket (opened w now rnd36 rnd s) = socket s"
  "socketRef (opened w now rnd36 rnd s) = socketRef s"
  "wire (opened w now rnd36 rnd s) = wire s @ [(w, registerData rnd36 now)]"
  "status (opened w now rnd36 rnd s) = Connected"
  "ready (opened w now rnd36 rnd s) k = ready s k"
  "frames_on k (opened w now rnd36 rnd s) =
     frames_on k s @ (if k = w then [registerData rnd36 now] else [])"
  by (simp_all add: opened_def setInterval_ping_def dummy_battery_def track_def ready_def
      frames_on_def)

lemma one_timer_connecting:
  assumes "one_timer s" and "live_is_current s" and "w < length (socks s)"
    and "ready s w = CONNECTING"
  shows "timers s = []"
proof (rule ccontr)
  assume "timers s \<noteq> []"
  then obtain w' where "effect_ws s = Some w'" "ready s w' \<noteq> CONNECTING"
    using assms(1) unfolding one_timer_def by blast
  moreover have "effect_ws s = Some w"
    using assms(2,3,4) by (simp add: live_is_currentD)
  ultimately show False
    using assms(4) by simp
qed

lemma stale_socket_not_open:
  assumes "inv s" and "w < length (socks s)" and "ready s w = CONNECTING"
  shows "open_socket (set_ready w OPEN s) (render_socket (socks s ! w)) = None"
proof (cases "render_socket (socks s ! w)")
  case None
  then show ?thesis by (simp add: open_socket_def)
next
  case (Some k)
  then have k: "k < w"
    using assms(1,2) by (simp add: inv_def closures_ok_def)
  have "ready s k \<noteq> OPEN"
  proof
    assume "ready s k = OPEN"
    then have "effect_ws s = Some k"
      using assms(1,2) k by (simp add: inv_def live_is_currentD)
    moreover have "effect_ws s = Some w"
      using assms by (simp add: inv_def live_is_currentD)
    ultimately show False
      using k by simp
  qed
  then show ?thesis
    using Some k by (simp add: open_socket_def)
qed

lemma onopen_opened:
  assumes "inv s" and "w < length (socks s)" and "ready s w = CONNECTING"
  shows "onopen w now rnd36 t1 t2 rnd (set_ready w OPEN s) =
           Inr (opened w now rnd36 rnd (set_ready w OPEN s))"
proof -
  let ?s0 = "set_ready w OPEN s"
  let ?s1 = "track (TrackWsConnection ''connect'') (?s0\<lparr>status := Connected\<rparr>)"
  let ?s2 = "track (TrackWsMessage ''sent'' (registerData rnd36 now))
               (?s1\<lparr>wire := wire ?s1 @ [(w, registerData rnd36 now)]\<rparr>)"
  have "ready ?s1 w = OPEN"
    using assms(2) by simp
  then have a: "send_tracked w (registerData rnd36 now) ?s1 = Inr ?s2"
    by (rule send_tracked_open)
  have "open_socket ?s2 (render_socket (socks ?s2 ! w)) = open_socket ?s0 (render_socket (socks s ! w))"
    by (simp add: open_socket_def split: option.splits)
  then have b: "requestBatteryLevel_on (render_socket (socks ?s2 ! w)) t1 t2 rnd ?s2 =
      Inr (dummy_battery rnd ?s2)"
    using stale_socket_not_open [OF assms] by (simp add: requestBatteryLevel_on_def)
  show ?thesis
    unfolding onopen_def a seq_err_def sum.case b opened_def by simp
qed

lemma opened_inv:
  assumes "inv s" and "w < length (socks s)" and "ready s w = CONNECTING"
  shows "inv (opened w now rnd36 rnd (set_ready w OPEN s))"
proof -
  let ?s' = "opened w now rnd36 rnd (set_ready w OPEN s)"
  have c: "live_is_current s" and t: "one_timer s" and wo: "wire_ok s" and cl: "closures_ok s"
    using assms(1) by (simp_all add: inv_def)
  have e: "effect_ws s = Some w"
    using c assms(2,3) by (simp add: live_is_currentD)
  have none: "frames_on w s = []"
  proof (rule ccontr)
    assume "frames_on w s \<noteq> []"
    then obtain f where "f \<in> set (wire s)" "fst f = w"
      unfolding frames_on_def by (auto simp add: filter_empty_conv)
    then show False
      using wo assms(3) unfolding wire_ok_def by blast
  qed
  have r: "ready ?s' k = (if k = w then OPEN else ready s k)" for k
    using assms(2) by simp
  have "live_is_current ?s'"
    unfolding live_is_current_def using c e by (auto simp add: r live_is_current_def)
  moreover have "one_timer ?s'"
    using one_timer_connecting [OF t c assms(2,3)] e assms(2)
    by (simp add: one_timer_def)
  moreover have "wire_ok ?s'"
  proof -
    have "\<forall>f \<in> set (wire ?s'). fst f < length (socks ?s') \<and> ready ?s' (fst f) \<noteq> CONNECTING"
      using wo assms(2) unfolding wire_ok_def by (auto simp add: r)
    moreover have "\<forall>k < length (socks ?s'). ready ?s' k = OPEN \<longrightarrow> frames_on k ?s' \<noteq> []"
      using wo unfolding wire_ok_def by (auto simp add: r)
    moreover have "\<forall>k. frames_on k ?s' \<noteq> [] \<longrightarrow> (\<exists>x n. hd (frames_on k ?s') = registerData x n)"
    proof (intro allI impI)
      fix k
      assume ne: "frames_on k ?s' \<noteq> []"
      show "\<exists>x n. hd (frames_on k ?s') = registerData x n"
      proof (cases "k = w")
        case True
        then have "frames_on k ?s' = [registerData rnd36 now]"
          using none by simp
        then show ?thesis by auto
      next
        case False
        then have "frames_on k ?s' = frames_on k s"
          by simp
        then show ?thesis
          using wo ne unfolding wire_ok_def by auto
      qed
    qed
    ultimately show ?thesis
      unfolding wire_ok_def by blast
  qed
  moreover have "closures_ok ?s'"
    using cl by (simp add: closures_ok_def)
  ultimately show ?thesis
    by (simp add: inv_def)
qed

text \<open>The dispatcher changes no part of the connection and transmits nothing.\<close>

lemma dispatch_frame:
  assumes "dispatch rt now event s = Inr s'"
  shows "conn s' = conn s \<and> wire s' = wire s \<and> status s' = status s"
proof -
  have "\<And>f g. seq_err f g = Inr s' \<Longrightarrow> \<exists>x. f = Inr x \<and> g x = Inr s'"
    by (simp add: seq_err_def split: sum.splits)
  note b = this
  from assms show ?thesis
    unfolding dispatch_def
    by (auto dest!: b simp add: conn_def split: if_splits)
qed

lemma onmessage_frame:
  "conn (onmessage rt now raw s) = conn s \<and> wire (onmessage rt now raw s) = wire s \<and>
   status (onmessage rt now raw s) = status s"
proof (cases "JSON_parse rt raw")
  case None
  then show ?thesis
    by (simp add: onmessage_def parse_failed_def)
next
  case (Some event)
  show ?thesis
  proof (cases "dispatch rt now event (track (TrackWsMessage ''received'' event) s)")
    case (Inl e)
    then show ?thesis
      using Some by (simp add: onmessage_def parse_failed_def)
  next
    case (Inr s')
    then show ?thesis
      using Some dispatch_frame [OF Inr] by (simp add: onmessage_def)
  qed
qed

lemma ping_tick_sends_only:
  assumes "one_timer s" and "map_of (timers s) h = Some iv"
    and "ping_tick (pings iv) t1 t2 s = Inr s'"
  shows "sends_only s s'"
proof -
  have "timers s \<noteq> []"
    using assms(2) by auto
  then obtain h' w where "timers s = [(h', \<lparr>pings = w, delay = 500\<rparr>)]" "w < length (socks s)"
    using assms(1) unfolding one_timer_def by blast
  then have w: "pings iv < length (socks s)"
    using assms(2) by (auto split: if_splits)
  show ?thesis
  proof (cases "ready s (pings iv) = OPEN")
    case True
    then show ?thesis
      using assms(3) w by (simp add: ping_tick_def send_tracked_sends_only)
  next
    case False
    then show ?thesis
      using assms(3) by (simp add: ping_tick_def sends_only_refl)
  qed
qed

lemma returned_Some: "returned r = Some s' \<longleftrightarrow> r = Inr s'"
  by (simp add: returned_def split: sum.splits)

lemma inv_init: "inv init"
  by (simp add: inv_def live_is_current_def one_timer_def wire_ok_def closures_ok_def init_def
      frames_on_def)

lemma step_inv:
  assumes "inv s" and "step rt e s = Some s'"
  shows "inv s'"
proof (cases e)
  case Mount
  then have e: "effect_ws s = None" "effect_body rt s = Inr s'"
    using assms(2) by (simp_all add: returned_Some split: if_splits)
  have "live s = []"
    using live_cases [of s] assms(1) e(1) by (simp add: inv_def)
  moreover have "timers s = []"
    using assms(1) e(1) by (simp add: inv_def one_timer_none)
  ultimately show ?thesis
    using effect_body_quiet(1) [OF assms(1) _ _ e(2)] by simp
next
  case Connect
  have "inv (s\<lparr>reconnectTrigger := reconnectTrigger s + 1\<rparr>)"
    by (rule same_conn_inv [OF assms(1)]) simp_all
  then show ?thesis
    using assms(2) Connect rerun_effect_inv(1) by (simp add: returned_Some connect_def)
next
  case Disconnect
  then show ?thesis
    using assms by (auto simp add: disconnect_inv)
next
  case (SetCustomWsUrl u)
  have "inv (s\<lparr>customWsUrl := u\<rparr>)"
    by (rule same_conn_inv [OF assms(1)]) simp_all
  then show ?thesis
    using assms SetCustomWsUrl rerun_effect_inv(1)
    by (auto simp add: returned_Some setCustomWsUrl_def split: if_splits)
next
  case Unmount
  then show ?thesis
    using assms by (auto simp add: effect_cleanup_inv)
next
  case (SockOpen w now rnd36 t1 t2 rnd)
  then have w: "w < length (socks s)" "ready s w = CONNECTING"
    and s': "onopen w now rnd36 t1 t2 rnd (set_ready w OPEN s) = Inr s'"
    using assms(2) by (simp_all add: returned_Some split: if_splits)
  have "s' = opened w now rnd36 rnd (set_ready w OPEN s)"
    using s' by (simp add: onopen_opened [OF assms(1) w])
  then show ?thesis
    using opened_inv [OF assms(1) w] by simp
next
  case (SockClosing w)
  then have "s' = set_ready w CLOSING s"
    using assms(2) by (simp split: if_splits)
  then show ?thesis
    using assms(1) by (simp add: set_ready_closed_inv)
next
  case (SockClose w)
  then have "s' = onclose (set_ready w CLOSED s)"
    using assms(2) by (simp split: if_splits)
  then show ?thesis
    using assms(1) by (simp add: onclose_inv set_ready_closed_inv)
next
  case (SockError w)
  then show ?thesis
    using assms by (auto simp add: onerror_inv split: if_splits)
next
  case (SockMessage w now raw)
  then have "s' = onmessage rt now raw s"
    using assms(2) by (simp split: if_splits)
  then show ?thesis
    using same_conn_inv [OF assms(1)] onmessage_frame [of rt now raw s] by simp
next
  case (PingTick h t1 t2)
  then obtain iv where "map_of (timers s) h = Some iv" "ping_tick (pings iv) t1 t2 s = Inr s'"
    using assms(2) by (auto simp add: returned_Some split: option.splits)
  then have "sends_only s s'"
    using assms(1) by (auto simp add: inv_def intro: ping_tick_sends_only)
  then show ?thesis
    using assms(1) by (rule sends_only_inv)
next
  case (SendGamepadState now g)
  then have "sends_only s s'"
    using assms by (auto simp add: inv_def returned_Some intro: commands_send_only)
  then show ?thesis using assms(1) by (rule sends_only_inv)
next
  case (SendRobotCommand t1 t2 c)
  then have "sends_only s s'"
    using assms by (auto simp add: inv_def returned_Some intro: commands_send_only)
  then show ?thesis using assms(1) by (rule sends_only_inv)
next
  case (RequestBatteryLevel t1 t2 rnd)
  then have "sends_only s s'"
    using assms by (auto simp add: inv_def returned_Some intro: commands_send_only split: if_splits)
  then show ?thesis using assms(1) by (rule sends_only_inv)
next
  case (UpdateSettings t1 t2 v)
  then have "sends_only s s'"
    using assms by (auto simp add: inv_def returned_Some intro: commands_send_only)
  then show ?thesis using assms(1) by (rule sends_only_inv)
next
  case (SpeakText t1 t2 phrase)
  then have "sends_only s s'"
    using assms by (auto simp add: inv_def returned_Some intro: commands_send_only)
  then show ?thesis using assms(1) by (rule sends_only_inv)
next
  case (PlaySound t1 t2 sound)
  then have "sends_only s s'"
    using assms by (auto simp add: inv_def returned_Some intro: commands_send_only)
  then show ?thesis using assms(1) by (rule sends_only_inv)
next
  case (RestartCameraFeed t1 t2)
  then have "sends_only s s'"
    using assms by (auto simp add: inv_def returned_Some intro: commands_send_only)
  then show ?thesis using assms(1) by (rule sends_only_inv)
next
  case (ScanNetworks t1 t2)
  then have "sends_only s s'"
    using assms by (auto simp add: inv_def returned_Some intro: commands_send_only)
  then show ?thesis using assms(1) by (rule sends_only_inv)
next
  case (UpdateNetwork t1 t2 a d)
  then have "sends_only s s'"
    using assms by (auto simp add: inv_def returned_Some intro: commands_send_only)
  then show ?thesis using assms(1) by (rule sends_only_inv)
next
  case (SendGptCommand t1 t2 p cam)
  then have "sends_only s s'"
    using assms by (auto simp add: inv_def returned_Some intro: commands_send_only)
  then show ?thesis using assms(1) by (rule sends_only_inv)
qed

lemma run_inv:
  "inv s \<Longrightarrow> run rt es s = Some s' \<Longrightarrow> inv s'"
proof (induction es arbitrary: s)
  case Nil
  then show ?case by simp
next
  case (Cons e es)
  then obtain s1 where "step rt e s = Some s1" "run rt es s1 = Some s'"
    by (auto split: option.splits)
  then show ?case
    using Cons.IH Cons.prems(1) step_inv by blast
qed

lemma reachable_inv: "run rt es init = Some s \<Longrightarrow> inv s"
  using run_inv inv_init by blast

lemma run_append:
  "run rt (es @ es') s = (case run rt es s of None \<Rightarrow> None | Some s1 \<Rightarrow> run rt es' s1)"
  by (induction es arbitrary: s) (simp_all split: option.splits)


section \<open>One live socket\<close>

lemma ready_cleanup_existing:
  "ready (cleanup_existing s) k = ready s k \<or> ready (cleanup_existing s) k = CLOSING"
  by (simp add: cleanup_existing_def ready_close_if_live split: option.splits)

lemma effect_body_ready:
  assumes "effect_body rt s = Inr s'"
  shows "ready s' (length (socks s)) = CONNECTING"
    and "k < length (socks s) \<Longrightarrow> ready s k = CLOSING \<Longrightarrow> ready s' k = CLOSING"
proof -
  have s': "s' = new_WebSocket (wsUrl rt s) ((cleanup_existing s)\<lparr>status := Connecting\<rparr>)"
    using assms by (simp add: effect_body_def split: if_splits)
  have "length (socks ((cleanup_existing s)\<lparr>status := Connecting\<rparr>)) = length (socks s)"
    by simp
  then show "ready s' (length (socks s)) = CONNECTING"
    unfolding s' by (metis new_WebSocket_fields(9))
  show "ready s' k = CLOSING" if "k < length (socks s)" "ready s k = CLOSING"
    using that ready_cleanup_existing [of s k] by (simp add: s')
qed

lemma effect_cleanup_closes:
  assumes "live_is_current s" and "w \<in> set (live s)"
  shows "ready (effect_cleanup s) w = CLOSING"
proof -
  have w: "w < length (socks s)" "ready s w = OPEN \<or> ready s w = CONNECTING"
    using assms(2) by (auto simp add: live_def)
  then have "effect_ws s = Some w"
    using assms(1) by (simp add: live_is_currentD)
  then show ?thesis
    using w by (auto simp add: effect_cleanup_def ready_close_if_live)
qed

lemma connect_reachable:
  assumes "inv s" and "connect rt s = Inr s1"
  shows "live s1 = [length (socks s)]" and "ready s1 (length (socks s)) = CONNECTING"
    and "timers s1 = []" and "\<forall>w \<in> set (live s). ready s1 w = CLOSING"
    and "length (socks s1) = Suc (length (socks s))" and "inv s1"
proof -
  let ?t = "s\<lparr>reconnectTrigger := reconnectTrigger s + 1\<rparr>"
  have t: "inv ?t"
    by (rule same_conn_inv [OF assms(1)]) simp_all
  have r: "rerun_effect rt ?t = Inr s1"
    using assms(2) by (simp add: connect_def)
  show "live s1 = [length (socks s)]" and "timers s1 = []"
    and "length (socks s1) = Suc (length (socks s))" and "inv s1"
    using rerun_effect_inv [OF t r] by simp_all
  have b: "effect_body rt (effect_cleanup ?t) = Inr s1"
    using r by (simp add: rerun_effect_def)
  show "ready s1 (length (socks s)) = CONNECTING"
    using effect_body_ready(1) [OF b] by simp
  show "\<forall>w \<in> set (live s). ready s1 w = CLOSING"
  proof
    fix w
    assume w: "w \<in> set (live s)"
    then have "w \<in> set (live ?t)" by simp
    then have "ready (effect_cleanup ?t) w = CLOSING"
      using t by (intro effect_cleanup_closes) (simp_all add: inv_def)
    moreover have "w < length (socks (effect_cleanup ?t))"
      using w by (simp add: live_def)
    ultimately show "ready s1 w = CLOSING"
      using effect_body_ready(2) [OF b] by simp
  qed
qed

lemma customWsUrl_kept [simp]:
  "customWsUrl (close_if_live k s) = customWsUrl s"
  "customWsUrl (clear_ping s) = customWsUrl s"
  "customWsUrl (effect_cleanup s) = customWsUrl s"
  "customWsUrl (cleanup_existing s) = customWsUrl s"
  "customWsUrl (new_WebSocket u s) = customWsUrl s"
  by (simp_all add: close_if_live_def set_ready_def clear_ping_def clearInterval_def
      effect_cleanup_def cleanup_existing_def new_WebSocket_def split: option.splits)

lemma connect_accepted:
  assumes "url_ok rt (wsUrl rt s)"
  shows "\<exists>s1. connect rt s = Inr s1 \<and> wsUrl rt s1 = wsUrl rt s"
  using assms by (simp add: connect_def rerun_effect_def effect_body_def wsUrl_def)

text \<open>
  C6. In every state a run of the provider reaches, at most one socket is open or
  connecting. \<^verbatim>\<open>connect()\<close> runs the pending cleanup first, after which no socket is live
  and no heartbeat interval is registered, and then the effect: when it returns, every
  socket that was live is closing, no interval is registered and exactly one socket,
  the new one, is live, in the connecting state. A second \<^verbatim>\<open>connect()\<close> in succession
  again leaves exactly one live socket, its own, and the first one closing.
\<close>

theorem at_most_one_live_socket:
  assumes "run rt es init = Some s"
  shows
    "length (live s) \<le> 1 \<and>
     connect rt s =
       effect_body rt (effect_cleanup (s\<lparr>reconnectTrigger := reconnectTrigger s + 1\<rparr>)) \<and>
     live (effect_cleanup (s\<lparr>reconnectTrigger := reconnectTrigger s + 1\<rparr>)) = [] \<and>
     timers (effect_cleanup (s\<lparr>reconnectTrigger := reconnectTrigger s + 1\<rparr>)) = [] \<and>
     (connect rt s = Inr s1 \<longrightarrow>
        (\<forall>w \<in> set (live s). ready s1 w = CLOSING) \<and> timers s1 = [] \<and>
        live s1 = [length (socks s)] \<and> ready s1 (length (socks s)) = CONNECTING \<and>
        (connect rt s1 = Inr s2 \<longrightarrow>
           live s2 = [length (socks s1)] \<and> ready s2 (length (socks s1)) = CONNECTING \<and>
           ready s2 (length (socks s)) = CLOSING \<and>
           run rt (es @ [Connect, Connect]) init = Some s2))"
proof -
  let ?t = "s\<lparr>reconnectTrigger := reconnectTrigger s + 1\<rparr>"
  have i: "inv s"
    using assms by (rule reachable_inv)
  have t: "inv ?t"
    by (rule same_conn_inv [OF i]) simp_all
  have "length (live s) \<le> 1"
    using i live_le_one [of s] unfolding inv_def by blast
  moreover have "connect rt s = effect_body rt (effect_cleanup ?t)"
    by (simp add: connect_def rerun_effect_def)
  moreover have "live (effect_cleanup ?t) = []" "timers (effect_cleanup ?t) = []"
    using effect_cleanup_quiet [OF t] by simp_all
  moreover have "(\<forall>w \<in> set (live s). ready s1 w = CLOSING) \<and> timers s1 = [] \<and>
      live s1 = [length (socks s)] \<and> ready s1 (length (socks s)) = CONNECTING \<and>
      (connect rt s1 = Inr s2 \<longrightarrow>
         live s2 = [length (socks s1)] \<and> ready s2 (length (socks s1)) = CONNECTING \<and>
         ready s2 (length (socks s)) = CLOSING \<and>
         run rt (es @ [Connect, Connect]) init = Some s2)"
    if c1: "connect rt s = Inr s1"
  proof -
    note a = connect_reachable [OF i c1]
    have "live s2 = [length (socks s1)] \<and> ready s2 (length (socks s1)) = CONNECTING \<and>
        ready s2 (length (socks s)) = CLOSING \<and>
        run rt (es @ [Connect, Connect]) init = Some s2"
      if c2: "connect rt s1 = Inr s2"
    proof -
      note b = connect_reachable [OF a(6) c2]
      have "length (socks s) \<in> set (live s1)"
        using a(1) by simp
      then have "ready s2 (length (socks s)) = CLOSING"
        using b(4) by blast
      moreover have "run rt (es @ [Connect, Connect]) init = Some s2"
        using assms c1 c2 by (simp add: run_append returned_def)
      ultimately show ?thesis
        using b(1,2) by simp
    qed
    then show ?thesis
      using a(1-4) by blast
  qed
  ultimately show ?thesis
    by blast
qed

text \<open>
  A provider that mounted and whose socket opened: two calls of \<^verbatim>\<open>connect()\<close> leave the
  sockets 0 and 1 closing and the socket 2 connecting.
\<close>

theorem at_most_one_live_socket_witness:
  "run rt0 [Mount, SockOpen 0 100 ''0.k3j9x2mq1f'' 100 100 (1 / 2)] init \<noteq> None \<and>
   map_option live
     (run rt0 ([Mount, SockOpen 0 100 ''0.k3j9x2mq1f'' 100 100 (1 / 2)] @ [Connect, Connect]) init) =
     Some [2] \<and>
   map_option (\<lambda>s. map (ready s) [0, 1, 2])
     (run rt0 ([Mount, SockOpen 0 100 ''0.k3j9x2mq1f'' 100 100 (1 / 2)] @ [Connect, Connect]) init) =
     Some [CLOSING, CLOSING, CONNECTING]"
proof -
  let ?es = "[Mount, SockOpen 0 100 ''0.k3j9x2mq1f'' 100 100 (1 / 2)]"
  obtain s where s: "run rt0 ?es init = Some s" and l: "length (socks s) = 1"
    and u: "url_ok rt0 (wsUrl rt0 s)" and z: "0 \<in> set (live s)"
    by (simp add: sample_defs sock_defs effect_defs handler_defs live_def)
  obtain s1 where s1: "connect rt0 s = Inr s1" and u1: "url_ok rt0 (wsUrl rt0 s1)"
    using connect_accepted [OF u] u by auto
  obtain s2 where s2: "connect rt0 s1 = Inr s2"
    using connect_accepted [OF u1] by auto
  have l1: "length (socks s1) = 2"
    using connect_reachable(5) [OF reachable_inv [OF s] s1] l by simp
  note t = at_most_one_live_socket [OF s, of s1 s2]
  have "live s2 = [2]" "ready s2 2 = CONNECTING" "ready s2 1 = CLOSING"
    and r: "run rt0 (?es @ [Connect, Connect]) init = Some s2"
    using t s1 s2 by (simp_all add: l l1)
  moreover have "ready s2 0 = CLOSING"
  proof -
    let ?c = "effect_cleanup (s1\<lparr>reconnectTrigger := reconnectTrigger s1 + 1\<rparr>)"
    have "ready s1 0 = CLOSING"
      using t s1 z by blast
    then have c: "ready ?c 0 = CLOSING"
      by (simp add: effect_cleanup_def ready_close_if_live split: option.splits)
    have b: "effect_body rt0 ?c = Inr s2"
      using s2 by (simp add: connect_def rerun_effect_def)
    have "0 < length (socks ?c)"
      by (simp add: l1)
    then show ?thesis
      using c by (rule effect_body_ready(2) [OF b])
  qed
  ultimately show ?thesis
    using s by simp
qed


section \<open>Registration and heartbeat\<close>

text \<open>
  C9. When a socket of a running provider opens, the handler sets the status to
  connected and transmits, as the first frame on that socket, a \<^verbatim>\<open>client_register\<close>
  envelope whose data has type \<^verbatim>\<open>controller\<close> and the identifier \<^verbatim>\<open>controller-\<close> followed by
  seven characters of the text of a fresh \<^verbatim>\<open>Math.random()\<close> draw. No interval was
  registered before; the handler then registers the heartbeat interval, with delay 500,
  and a tick of it at clock readings \<open>ta\<close>, \<open>tb\<close> transmits a \<^verbatim>\<open>ping\<close> envelope with the
  payload \<^verbatim>\<open>{ sentAt: ta }\<close> on the same socket. On no socket is the first frame ever
  anything but a registration. (The \<^verbatim>\<open>requestBatteryLevel\<close> call between the two
  transmits nothing: the socket its closure holds is an older one, never open by then.)
\<close>

theorem open_registers_then_heartbeat:
  assumes "run rt es init = Some s" and "w < length (socks s)" and "ready s w = CONNECTING"
    and "0 \<le> rnd" and "rnd < 1"
  shows
    "\<exists>s'. step rt (SockOpen w now rnd36 t1 t2 rnd) s = Some s' \<and>
       status s' = Connected \<and>
       timers s = [] \<and> frames_on w s = [] \<and>
       wire s' = wire s @
         [(w, JObj [(''name'', JStr ''client_register''),
                    (''data'', JObj [(''type'', JStr ''controller''),
                                     (''id'', JStr (''controller-'' @ take 7 (drop 2 rnd36)))]),
                    (''createdAt'', JNum now)])] \<and>
       frames_on w s' =
         [JObj [(''name'', JStr ''client_register''),
                (''data'', JObj [(''type'', JStr ''controller''),
                                 (''id'', JStr (''controller-'' @ take 7 (drop 2 rnd36)))]),
                (''createdAt'', JNum now)]] \<and>
       timers s' = [(next_handle s, \<lparr>pings = w, delay = 500\<rparr>)] \<and>
       pingIntervalRef s' = Some (next_handle s) \<and>
       (\<forall>ta tb. \<exists>s''. step rt (PingTick (next_handle s) ta tb) s' = Some s'' \<and>
          wire s'' = wire s' @
            [(w, JObj [(''name'', JStr ''ping''), (''data'', JObj [(''sentAt'', JNum ta)]),
                       (''createdAt'', JNum tb)])]) \<and>
       (\<forall>k. frames_on k s' \<noteq> [] \<longrightarrow> (\<exists>x n. hd (frames_on k s') = registerData x n))"
proof -
  let ?s' = "opened w now rnd36 rnd (set_ready w OPEN s)"
  have i: "inv s"
    using assms(1) by (rule reachable_inv)
  have st: "step rt (SockOpen w now rnd36 t1 t2 rnd) s = Some ?s'"
    using assms(2-5) by (simp add: onopen_opened [OF i assms(2,3)] returned_def)
  have t: "timers s = []"
    using i assms(2,3) by (simp add: inv_def one_timer_connecting)
  have f: "frames_on w s = []"
  proof (rule ccontr)
    assume "frames_on w s \<noteq> []"
    then obtain f where "f \<in> set (wire s)" "fst f = w"
      unfolding frames_on_def by (auto simp add: filter_empty_conv)
    then show False
      using i assms(3) unfolding inv_def wire_ok_def by blast
  qed
  have reg: "registerData rnd36 now =
      JObj [(''name'', JStr ''client_register''),
            (''data'', JObj [(''type'', JStr ''controller''),
                             (''id'', JStr (''controller-'' @ take 7 (drop 2 rnd36)))]),
            (''createdAt'', JNum now)]"
    by (simp add: registerData_def envelope_def substring_def)
  have tick: "\<exists>s''. step rt (PingTick (next_handle s) ta tb) ?s' = Some s'' \<and>
      wire s'' = wire ?s' @
        [(w, JObj [(''name'', JStr ''ping''), (''data'', JObj [(''sentAt'', JNum ta)]),
                   (''createdAt'', JNum tb)])]" for ta tb
    using assms(2) t
    by (simp add: ping_tick_def send_tracked_open returned_def pingData_def envelope_def)
  have "inv ?s'"
    using i assms(2,3) by (rule opened_inv)
  then have first: "\<forall>k. frames_on k ?s' \<noteq> [] \<longrightarrow> (\<exists>x n. hd (frames_on k ?s') = registerData x n)"
    unfolding inv_def wire_ok_def by blast
  show ?thesis
    apply (rule exI [of _ ?s'])
    using st t f tick first by (simp add: reg)
qed

theorem open_registers_then_heartbeat_witness:
  "\<exists>s s'. run rt0 [Mount] init = Some s \<and> ready s 0 = CONNECTING \<and>
     step rt0 (SockOpen 0 100 ''0.k3j9x2mq1f'' 100 100 (1 / 2)) s = Some s' \<and>
     frames_on 0 s' =
       [JObj [(''name'', JStr ''client_register''),
              (''data'', JObj [(''type'', JStr ''controller''), (''id'', JStr ''controller-k3j9x2m'')]),
              (''createdAt'', JNum 100)]] \<and>
     timers s' = [(1, \<lparr>pings = 0, delay = 500\<rparr>)] \<and>
     (\<exists>s''. step rt0 (PingTick 1 600 601) s' = Some s'' \<and>
        frames_on 0 s'' =
          [JObj [(''name'', JStr ''client_register''),
                 (''data'', JObj [(''type'', JStr ''controller''), (''id'', JStr ''controller-k3j9x2m'')]),
                 (''createdAt'', JNum 100)],
           JObj [(''name'', JStr ''ping''), (''data'', JObj [(''sentAt'', JNum 600)]),
                 (''createdAt'', JNum 601)]])"
proof -
  obtain s where s: "run rt0 [Mount] init = Some s" and w: "0 < length (socks s)"
    and r: "ready s 0 = CONNECTING" and h: "next_handle s = 1"
    by (simp add: sample_defs sock_defs effect_defs returned_def)
  have rnd: "(0 :: real) \<le> 1 / 2" "(1 / 2 :: real) < 1"
    by simp_all
  from open_registers_then_heartbeat [OF s w r rnd, where now = 100
      and ?rnd36.0 = "''0.k3j9x2mq1f''" and ?t1.0 = 100 and ?t2.0 = 100]
  obtain s' where s': "step rt0 (SockOpen 0 100 ''0.k3j9x2mq1f'' 100 100 (1 / 2)) s = Some s'"
    and f: "frames_on 0 s' =
       [JObj [(''name'', JStr ''client_register''),
              (''data'', JObj [(''type'', JStr ''controller''), (''id'', JStr ''controller-k3j9x2m'')]),
              (''createdAt'', JNum 100)]]"
    and t: "timers s' = [(1, \<lparr>pings = 0, delay = 500\<rparr>)]"
    and p: "\<forall>ta tb. \<exists>s''. step rt0 (PingTick 1 ta tb) s' = Some s'' \<and>
          wire s'' = wire s' @
            [(0, JObj [(''name'', JStr ''ping''), (''data'', JObj [(''sentAt'', JNum ta)]),
                       (''createdAt'', JNum tb)])]"
    by (auto simp add: h)
  from p obtain s'' where s'': "step rt0 (PingTick 1 600 601) s' = Some s''"
    "wire s'' = wire s' @
        [(0, JObj [(''name'', JStr ''ping''), (''data'', JObj [(''sentAt'', JNum 600)]),
                   (''createdAt'', JNum 601)])]"
    by blast
  have "frames_on 0 s'' = frames_on 0 s' @
      [JObj [(''name'', JStr ''ping''), (''data'', JObj [(''sentAt'', JNum 600)]),
             (''createdAt'', JNum 601)]]"
    using frames_on_append [OF s''(2), of 0] by simp
  then show ?thesis
    using s r s' f t s''(1) by auto
qed


section \<open>After a disconnect\<close>

lemma closing_refl: "closing s s"
  by (simp add: closing_def)

lemma closing_trans:
  assumes "closing s s'" and "closing s' s''"
  shows "closing s s''"
proof -
  have "ready s'' k = ready s k \<or> ready s'' k = CLOSING \<or> ready s'' k = CLOSED"
    if "k < length (socks s)" for k
  proof -
    have "k < length (socks s')"
      using assms(1) that by (simp add: closing_def)
    then have "ready s'' k = ready s' k \<or> ready s'' k = CLOSING \<or> ready s'' k = CLOSED"
      using assms(2) by (simp add: closing_def)
    moreover have "ready s' k = ready s k \<or> ready s' k = CLOSING \<or> ready s' k = CLOSED"
      using assms(1) that by (simp add: closing_def)
    ultimately show ?thesis by auto
  qed
  then show ?thesis
    using assms by (simp add: closing_def)
qed

lemma closing_same:
  "socks s' = socks s \<Longrightarrow> wire s' = wire s \<Longrightarrow> closing s s'"
  by (simp add: closing_def ready_def)

lemma closing_set_ready:
  "r = CLOSING \<or> r = CLOSED \<Longrightarrow> closing s (set_ready w r s)"
  by (auto simp add: closing_def)

lemma closing_close_if_live: "closing s (close_if_live k s)"
  by (simp add: close_if_live_def closing_set_ready closing_refl)

lemma closing_clear_ping: "closing s (clear_ping s)"
  by (simp add: closing_same)

lemma closing_disconnect: "closing s (disconnect s)"
  by (simp add: disconnect_def closing_close_if_live closing_refl split: option.splits)

lemma closing_effect_cleanup: "closing s (effect_cleanup s)"
proof (cases "effect_ws s")
  case None
  then show ?thesis by (simp add: effect_cleanup_def closing_refl)
next
  case (Some w)
  have "closing s (close_if_live w (clear_ping s))"
    using closing_clear_ping closing_close_if_live by (rule closing_trans)
  then show ?thesis
    using Some by (simp add: effect_cleanup_def)
qed

lemma closing_cleanup_existing: "closing s (cleanup_existing s)"
proof (cases "socket s")
  case None
  then show ?thesis by (simp add: cleanup_existing_def closing_refl)
next
  case (Some k)
  have "closing s (clear_ping (close_if_live k s))"
    using closing_close_if_live closing_clear_ping by (rule closing_trans)
  then show ?thesis
    using Some by (simp add: cleanup_existing_def)
qed

lemma closing_new_WebSocket: "closing s (new_WebSocket u s)"
  by (simp add: closing_def)

lemma closing_effect_body:
  assumes "effect_body rt s = Inr s'"
  shows "closing s s'"
proof -
  let ?c = "(cleanup_existing s)\<lparr>status := Connecting\<rparr>"
  have s': "s' = new_WebSocket (wsUrl rt s) ?c"
    using assms by (simp add: effect_body_def split: if_splits)
  have "closing (cleanup_existing s) ?c"
    by (simp add: closing_same)
  then have "closing s ?c"
    using closing_cleanup_existing closing_trans by blast
  then show ?thesis
    unfolding s' using closing_new_WebSocket closing_trans by blast
qed

lemma closing_rerun_effect:
  assumes "rerun_effect rt s = Inr s'"
  shows "closing s s'"
  using assms closing_effect_cleanup closing_effect_body closing_trans
  unfolding rerun_effect_def by blast

lemma closing_onclose:
  "closing s (onclose (set_ready w CLOSED s))"
proof -
  let ?c = "set_ready w CLOSED s"
  have "closing ?c (onclose ?c)"
    unfolding onclose_def by (rule closing_same) simp_all
  moreover have "closing s ?c"
    by (simp add: closing_set_ready)
  ultimately show ?thesis
    using closing_trans by blast
qed

text \<open>Every step of a running provider is of one of three kinds.\<close>

lemma step_kinds:
  assumes "inv s" and "step rt e s = Some s'"
  shows "sends_only s s' \<or> closing s s' \<or>
    (\<exists>k now rnd36 rnd. k < length (socks s) \<and> ready s k = CONNECTING \<and>
       s' = opened k now rnd36 rnd (set_ready k OPEN s))"
proof -
  have c: "closures_ok s" and o: "one_timer s"
    using assms(1) by (simp_all add: inv_def)
  note cs = commands_send_only [OF c]
  show ?thesis
  proof (cases e)
    case Mount
    then show ?thesis
      using assms(2) closing_effect_body by (auto simp add: returned_Some split: if_splits)
  next
    case Connect
    have "closing s (s\<lparr>reconnectTrigger := reconnectTrigger s + 1\<rparr>)"
      by (simp add: closing_same)
    then show ?thesis
      using assms(2) Connect closing_rerun_effect closing_trans
      by (auto simp add: returned_Some connect_def)
  next
    case Disconnect
    then show ?thesis
      using assms(2) closing_disconnect by auto
  next
    case (SetCustomWsUrl u)
    have "closing s (s\<lparr>customWsUrl := u\<rparr>)"
      by (simp add: closing_same)
    then show ?thesis
      using assms(2) SetCustomWsUrl closing_rerun_effect closing_trans closing_refl
      by (auto simp add: returned_Some setCustomWsUrl_def split: if_splits)
  next
    case Unmount
    then show ?thesis
      using assms(2) closing_effect_cleanup by auto
  next
    case (SockOpen w now rnd36 t1 t2 rnd)
    then have w: "w < length (socks s)" "ready s w = CONNECTING"
      and s': "onopen w now rnd36 t1 t2 rnd (set_ready w OPEN s) = Inr s'"
      using assms(2) by (simp_all add: returned_Some split: if_splits)
    have "s' = opened w now rnd36 rnd (set_ready w OPEN s)"
      using s' by (simp add: onopen_opened [OF assms(1) w])
    then show ?thesis
      using w by blast
  next
    case (SockClosing w)
    then have "s' = set_ready w CLOSING s"
      using assms(2) by (simp split: if_splits)
    then show ?thesis
      using closing_set_ready by simp
  next
    case (SockClose w)
    then have "s' = onclose (set_ready w CLOSED s)"
      using assms(2) by (simp split: if_splits)
    then show ?thesis
      using closing_onclose by simp
  next
    case (SockError w)
    then have "s' = onerror s"
      using assms(2) by (simp split: if_splits)
    then have "sends_only s s'"
      by (simp add: onerror_def sends_only_same)
    then show ?thesis ..
  next
    case (SockMessage w now raw)
    then have "s' = onmessage rt now raw s"
      using assms(2) by (simp split: if_splits)
    then have "sends_only s s'"
      using onmessage_frame [of rt now raw s] by (simp add: sends_only_same)
    then show ?thesis ..
  next
    case (PingTick h t1 t2)
    then obtain iv where "map_of (timers s) h = Some iv" "ping_tick (pings iv) t1 t2 s = Inr s'"
      using assms(2) by (auto simp add: returned_Some split: option.splits)
    then have "sends_only s s'"
      using o by (auto intro: ping_tick_sends_only)
    then show ?thesis ..
  next
    case (SendGamepadState now g)
    then have "sends_only s s'"
      using assms(2) cs(1) by (simp add: returned_Some)
    then show ?thesis ..
  next
    case (SendRobotCommand t1 t2 c)
    then have "sends_only s s'"
      using assms(2) cs(2) by (simp add: returned_Some)
    then show ?thesis ..
  next
    case (RequestBatteryLevel t1 t2 rnd)
    then have "sends_only s s'"
      using assms(2) cs(3) by (simp add: returned_Some split: if_splits)
    then show ?thesis ..
  next
    case (UpdateSettings t1 t2 v)
    then have "sends_only s s'"
      using assms(2) cs(4) by (simp add: returned_Some)
    then show ?thesis ..
  next
    case (SpeakText t1 t2 phrase)
    then have "sends_only s s'"
      using assms(2) cs(5) by (simp add: returned_Some)
    then show ?thesis ..
  next
    case (PlaySound t1 t2 sound)
    then have "sends_only s s'"
      using assms(2) cs(6) by (simp add: returned_Some)
    then show ?thesis ..
  next
    case (RestartCameraFeed t1 t2)
    then have "sends_only s s'"
      using assms(2) cs(7) by (simp add: returned_Some)
    then show ?thesis ..
  next
    case (ScanNetworks t1 t2)
    then have "sends_only s s'"
      using assms(2) cs(8) by (simp add: returned_Some)
    then show ?thesis ..
  next
    case (UpdateNetwork t1 t2 a d)
    then have "sends_only s s'"
      using assms(2) cs(9) by (simp add: returned_Some)
    then show ?thesis ..
  next
    case (SendGptCommand t1 t2 p cam)
    then have "sends_only s s'"
      using assms(2) cs(10) by (simp add: returned_Some)
    then show ?thesis ..
  qed
qed

text \<open>None of the three kinds transmits on a closed socket or reopens it.\<close>

lemma closed_step:
  assumes "inv s" and "closed s w" and "step rt e s = Some s'"
  shows "closed s' w \<and> frames_on w s' = frames_on w s"
proof -
  have w: "w < length (socks s)" "ready s w = CLOSING \<or> ready s w = CLOSED"
    using assms(2) by (simp_all add: closed_def)
  consider (sends) "sends_only s s'" | (closes) "closing s s'"
    | (opens) k now rnd36 rnd where "k < length (socks s)" "ready s k = CONNECTING"
        "s' = opened k now rnd36 rnd (set_ready k OPEN s)"
    using step_kinds [OF assms(1,3)] by blast
  then show ?thesis
  proof cases
    case sends
    then obtain fs where eq: "socks s' = socks s" and a: "wire s' = wire s @ fs"
      and b: "\<forall>f \<in> set fs. fst f < length (socks s) \<and> ready s (fst f) = OPEN"
      by (auto simp add: sends_only_def conn_def)
    have "filter (\<lambda>f. fst f = w) fs = []"
      using b w(2) by (auto simp add: filter_empty_conv)
    then have "frames_on w s' = frames_on w s"
      using frames_on_append [OF a, of w] by simp
    moreover have "closed s' w"
      using assms(2) eq by (simp add: closed_def ready_def)
    ultimately show ?thesis by simp
  next
    case closes
    then have "ready s' w = ready s w \<or> ready s' w = CLOSING \<or> ready s' w = CLOSED"
      and "w < length (socks s')" and "wire s' = wire s"
      using w(1) by (simp_all add: closing_def)
    then show ?thesis
      using w(2) by (auto simp add: closed_def frames_on_def)
  next
    case opens
    then have "k \<noteq> w"
      using w(2) by auto
    then show ?thesis
      using opens w by (simp add: closed_def)
  qed
qed

lemma closed_run:
  "inv s \<Longrightarrow> closed s w \<Longrightarrow> run rt es s = Some s' \<Longrightarrow>
   closed s' w \<and> frames_on w s' = frames_on w s"
proof (induction es arbitrary: s)
  case Nil
  then show ?case by simp
next
  case (Cons e es)
  then obtain s1 where s1: "step rt e s = Some s1" "run rt es s1 = Some s'"
    by (auto split: option.splits)
  have "inv s1" and "closed s1 w \<and> frames_on w s1 = frames_on w s"
    using step_inv [OF Cons.prems(1) s1(1)] closed_step [OF Cons.prems(1,2) s1(1)] by simp_all
  then show ?case
    using Cons.IH [OF _ _ s1(2)] by simp
qed

lemma current_socket_exists:
  "inv s \<Longrightarrow> effect_ws s = Some w \<Longrightarrow> w < length (socks s) \<and> socketRef s = Some w"
  by (simp add: inv_def closures_ok_def)

lemma close_if_live_closed:
  "w < length (socks s) \<Longrightarrow> closed (close_if_live w s) w"
  by (cases "ready s w") (simp_all add: closed_def ready_close_if_live)


lemmas view_defs = v_mount_def v_unmount_def v_close_def v_onopen_def v_onclose_def v_onerror_def
  v_onmessage_def v_dispatch_def v_ping_tick_def v_bridge_tick_def v_send_def callback_def
  bridge_effect_def v_setStatus_def v_setPingTime_def

lemma v_onmessage_frame:
  "v_ws (v_onmessage rt now raw s) = v_ws s \<and> v_sent (v_onmessage rt now raw s) = v_sent s \<and>
   v_mounted (v_onmessage rt now raw s) = v_mounted s \<and>
   v_pingLoop (v_onmessage rt now raw s) = v_pingLoop s \<and>
   v_bridge (v_onmessage rt now raw s) = v_bridge s \<and>
   v_status (v_onmessage rt now raw s) = v_status s"
proof -
  have b: "\<And>f g s'. seq_err f g = Inr s' \<Longrightarrow> \<exists>x. f = Inr x \<and> g x = Inr s'"
    by (simp add: seq_err_def split: sum.splits)
  have d: "v_ws s' = v_ws s \<and> v_sent s' = v_sent s \<and> v_mounted s' = v_mounted s \<and>
      v_pingLoop s' = v_pingLoop s \<and> v_bridge s' = v_bridge s \<and> v_status s' = v_status s"
    if "v_dispatch rt now event s = Inr s'" for event s'
    using that unfolding v_dispatch_def
    by (auto dest!: b simp add: v_setPingTime_def split: if_splits)
  show ?thesis
  proof (cases "JSON_parse rt raw")
    case None
    then show ?thesis
      by (simp add: v_onmessage_def seq_err_def)
  next
    case (Some event)
    then show ?thesis
      using d [of event]
      by (cases "v_dispatch rt now event s") (simp_all add: v_onmessage_def seq_err_def)
  qed
qed

lemma v_closed_step:
  assumes "v_closed s" and "v_step rt e s = Some s'"
  shows "v_closed s' \<and> v_sent s' = v_sent s"
proof (cases e)
  case (VMessage now raw)
  then show ?thesis
    using assms by (auto simp add: v_closed_def split: if_splits)
qed (use assms in \<open>auto simp add: v_closed_def view_defs split: if_splits\<close>)

lemma v_closed_run:
  "v_closed s \<Longrightarrow> v_run rt es s = Some s' \<Longrightarrow> v_closed s' \<and> v_sent s' = v_sent s"
proof (induction es arbitrary: s)
  case Nil
  then show ?case by simp
next
  case (Cons e es)
  then obtain s1 where s1: "v_step rt e s = Some s1" "v_run rt es s1 = Some s'"
    by (auto split: option.splits)
  then show ?case
    using v_closed_step [OF Cons.prems(1) s1(1)] Cons.IH [OF _ s1(2)] by simp
qed

lemma v_inv_step:
  assumes "v_inv s" and "v_step rt e s = Some s'"
  shows "v_inv s'"
proof (cases e)
  case (VMessage now raw)
  then show ?thesis
    using assms v_onmessage_frame [of rt now raw s] by (auto simp add: v_inv_def split: if_splits)
qed (use assms in \<open>auto simp add: v_inv_def view_defs split: if_splits option.splits ready_state.splits\<close>)

lemma v_inv_run:
  "v_inv s \<Longrightarrow> v_run rt es s = Some s' \<Longrightarrow> v_inv s'"
proof (induction es arbitrary: s)
  case Nil
  then show ?case by simp
next
  case (Cons e es)
  then obtain s1 where s1: "v_step rt e s = Some s1" "v_run rt es s1 = Some s'"
    by (auto split: option.splits)
  then show ?case
    using v_inv_step [OF Cons.prems(1) s1(1)] Cons.IH [OF _ s1(2)] by simp
qed

lemma v_unmounted_step:
  assumes "v_unmounted s" and "v_step rt e s = Some s'"
  shows "v_unmounted s'"
proof (cases e)
  case (VMessage now raw)
  then show ?thesis
    using assms v_onmessage_frame [of rt now raw s]
    by (auto simp add: v_unmounted_def split: if_splits)
qed (use assms in \<open>auto simp add: v_unmounted_def view_defs split: if_splits option.splits ready_state.splits\<close>)

lemma v_unmounted_run:
  "v_unmounted s \<Longrightarrow> v_run rt es s = Some s' \<Longrightarrow> v_unmounted s'"
proof (induction es arbitrary: s)
  case Nil
  then show ?case by simp
next
  case (Cons e es)
  then obtain s1 where s1: "v_step rt e s = Some s1" "v_run rt es s1 = Some s'"
    by (auto split: option.splits)
  then show ?case
    using v_unmounted_step [OF Cons.prems(1) s1(1)] Cons.IH [OF _ s1(2)] by simp
qed

lemma v_gone_step:
  assumes "v_gone s" and "v_step rt e s = Some s'"
  shows "v_gone s'"
proof (cases e)
  case (VMessage now raw)
  then show ?thesis
    using assms by (auto simp add: v_gone_def split: if_splits)
qed (use assms in \<open>auto simp add: v_gone_def view_defs split: if_splits option.splits\<close>)

lemma v_gone_run:
  "v_gone s \<Longrightarrow> v_run rt es s = Some s' \<Longrightarrow> v_gone s'"
proof (induction es arbitrary: s)
  case Nil
  then show ?case by simp
next
  case (Cons e es)
  then obtain s1 where s1: "v_step rt e s = Some s1" "v_run rt es s1 = Some s'"
    by (auto split: option.splits)
  then show ?case
    using v_gone_step [OF Cons.prems(1) s1(1)] Cons.IH [OF _ s1(2)] by simp
qed

lemma v_unmount_result:
  assumes "v_inv v" and "v_step rt VUnmount v = Some v1"
  shows "v_unmounted v1 \<and> v_closed v1"
  using assms
  by (auto simp add: v_inv_def v_unmounted_def v_closed_def v_unmount_def v_close_def
      split: if_splits option.splits ready_state.splits)

lemma v_close_result:
  assumes "v_inv v" and "v_step rt VClose v = Some v1"
  shows "v_gone v1 \<and> v_closed v1"
  using assms
  by (auto simp add: v_inv_def v_gone_def v_closed_def v_onclose_def bridge_effect_def
      v_setStatus_def split: if_splits)


lemma v_run_append:
  "v_run rt (xs @ ys) x = (case v_run rt xs x of None \<Rightarrow> None | Some y \<Rightarrow> v_run rt ys y)"
  by (induction xs arbitrary: x) (simp_all split: option.splits)

lemma v_inv_init: "v_inv (v_init g)"
  by (simp add: v_inv_def v_init_def)

text \<open>
  C7, as stated, fails. In the provider a manual \<^verbatim>\<open>disconnect()\<close> closes the socket and
  leaves the heartbeat interval registered, still held by \<^verbatim>\<open>pingIntervalRef\<close>. In the
  status component the close of the socket leaves \<^verbatim>\<open>pingLoop\<close> registered.
\<close>

theorem timers_after_disconnect_counterexample:
  "map_option (\<lambda>s. (map fst (timers s), pingIntervalRef s, ready s 0))
     (run rt0 [Mount, SockOpen 0 100 ''0.k3j9x2mq1f'' 100 100 (1 / 2), Disconnect] init) =
     Some ([1], Some 1, CLOSING) \<and>
   map_option (\<lambda>v. (v_pingLoop v, v_ws v))
     (v_run rt0 [VMount, VOpen, VClose] (v_init held_pad)) = Some (True, Some CLOSED)"
  by (simp add: sample_defs sock_defs effect_defs handler_defs view_defs v_init_def held_pad_def)

text \<open>
  C7, amended. In the provider the close event of a socket and the teardown of the
  effect clear the heartbeat interval; a manual \<^verbatim>\<open>disconnect()\<close> closes the socket and
  leaves the interval registered (its ticks find the socket no longer open). In the
  status component the teardown clears the heartbeat and the bridge interval, and the
  close event of the socket clears the bridge interval for good. After any of these, no
  frame is transmitted on that socket again, whatever events and however many ticks
  follow.
\<close>

theorem no_frames_after_disconnect:
  assumes "run rt es init = Some s" and "v_run rt ves (v_init g) = Some v"
  shows
    "(step rt (SockClose w) s = Some s1 \<and> run rt rest s1 = Some s2 \<longrightarrow>
        timers s1 = [] \<and> pingIntervalRef s1 = None \<and> closed s1 w \<and>
        frames_on w s2 = frames_on w s1) \<and>
     (effect_ws s = Some w \<and> step rt Unmount s = Some s1 \<and> run rt rest s1 = Some s2 \<longrightarrow>
        timers s1 = [] \<and> pingIntervalRef s1 = None \<and> closed s1 w \<and>
        frames_on w s2 = frames_on w s1) \<and>
     (effect_ws s = Some w \<and> step rt Disconnect s = Some s1 \<and> run rt rest s1 = Some s2 \<longrightarrow>
        timers s1 = timers s \<and> pingIntervalRef s1 = pingIntervalRef s \<and> closed s1 w \<and>
        frames_on w s2 = frames_on w s1) \<and>
     (v_step rt VUnmount v = Some v1 \<and> v_run rt vrest v1 = Some v2 \<longrightarrow>
        \<not> v_pingLoop v1 \<and> \<not> v_bridge v1 \<and> \<not> v_pingLoop v2 \<and> \<not> v_bridge v2 \<and>
        v_sent v2 = v_sent v1) \<and>
     (v_step rt VClose v = Some v1 \<and> v_run rt vrest v1 = Some v2 \<longrightarrow>
        \<not> v_bridge v1 \<and> \<not> v_bridge v2 \<and> v_sent v2 = v_sent v1)"
proof -
  have i: "inv s"
    using assms(1) by (rule reachable_inv)
  have vi: "v_inv v"
    using v_inv_init assms(2) by (rule v_inv_run)
  have later: "frames_on w s2 = frames_on w s1"
    if "step rt e s = Some s1" "closed s1 w" "run rt rest s1 = Some s2" for e
    using closed_run [OF step_inv [OF i that(1)] that(2,3)] by simp
  have a: "timers s1 = [] \<and> pingIntervalRef s1 = None \<and> closed s1 w \<and>
      frames_on w s2 = frames_on w s1"
    if st: "step rt (SockClose w) s = Some s1" and r: "run rt rest s1 = Some s2"
  proof -
    let ?c = "track (TrackWsConnection ''disconnect'') ((set_ready w CLOSED s)\<lparr>status := Disconnected\<rparr>)"
    have w: "w < length (socks s)" and s1: "s1 = clear_ping ?c"
      using st by (simp_all add: onclose_def split: if_splits)
    have "inv ?c"
      by (rule same_conn_inv [OF set_ready_closed_inv [OF i]]) simp_all
    then have "timers s1 = []"
      unfolding s1 by (simp add: inv_def timers_clear_ping)
    moreover have c: "closed s1 w"
      using w by (simp add: s1 closed_def)
    ultimately show ?thesis
      using later [OF st c r] by (simp add: s1)
  qed
  have b: "timers s1 = [] \<and> pingIntervalRef s1 = None \<and> closed s1 w \<and>
      frames_on w s2 = frames_on w s1"
    if e: "effect_ws s = Some w" and st: "step rt Unmount s = Some s1"
      and r: "run rt rest s1 = Some s2"
  proof -
    have w: "w < length (socks s)"
      using current_socket_exists [OF i e] by simp
    have s1: "s1 = close_if_live w (clear_ping s)"
      using st e by (simp add: effect_cleanup_def)
    have c: "closed s1 w"
      using close_if_live_closed [of w "clear_ping s"] w by (simp add: s1)
    have "timers s1 = []"
      using i by (simp add: s1 inv_def timers_clear_ping)
    then show ?thesis
      using later [OF st c r] c by (simp add: s1)
  qed
  have c: "timers s1 = timers s \<and> pingIntervalRef s1 = pingIntervalRef s \<and> closed s1 w \<and>
      frames_on w s2 = frames_on w s1"
    if e: "effect_ws s = Some w" and st: "step rt Disconnect s = Some s1"
      and r: "run rt rest s1 = Some s2"
  proof -
    have w: "w < length (socks s)" "socketRef s = Some w"
      using current_socket_exists [OF i e] by simp_all
    have s1: "s1 = close_if_live w s"
      using st w(2) by (simp add: disconnect_def)
    have c: "closed s1 w"
      using close_if_live_closed [of w s] w(1) by (simp add: s1)
    show ?thesis
      using later [OF st c r] c by (simp add: s1)
  qed
  have d: "\<not> v_pingLoop v1 \<and> \<not> v_bridge v1 \<and> \<not> v_pingLoop v2 \<and> \<not> v_bridge v2 \<and>
      v_sent v2 = v_sent v1"
    if st: "v_step rt VUnmount v = Some v1" and r: "v_run rt vrest v1 = Some v2"
    using v_unmount_result [OF vi st] v_unmounted_run [OF _ r] v_closed_run [OF _ r]
    by (auto simp add: v_unmounted_def)
  have e: "\<not> v_bridge v1 \<and> \<not> v_bridge v2 \<and> v_sent v2 = v_sent v1"
    if st: "v_step rt VClose v = Some v1" and r: "v_run rt vrest v1 = Some v2"
    using v_close_result [OF vi st] v_gone_run [OF _ r] v_closed_run [OF _ r]
    by (auto simp add: v_gone_def)
  show ?thesis
    using a b c d e by blast
qed

text \<open>
  A provider whose socket opened, then \<^verbatim>\<open>disconnect()\<close>, then a tick of the interval that
  is still registered, a gamepad state and the close event: the socket has transmitted
  its registration and nothing rest. A status component with a selected gamepad whose
  socket opened and then closed, then three ticks of \<^verbatim>\<open>pingLoop\<close>: nothing is transmitted.
\<close>

theorem no_frames_after_disconnect_witness:
  "\<exists>s s1 s2 v v1 v2.
     run rt0 [Mount, SockOpen 0 100 ''0.k3j9x2mq1f'' 100 100 (1 / 2)] init = Some s \<and>
     effect_ws s = Some 0 \<and> step rt0 Disconnect s = Some s1 \<and>
     run rt0 [PingTick 1 600 600, SendGamepadState 700 (JObj [(''speed'', JNum 1)]), SockClose 0] s1 =
       Some s2 \<and>
     timers s1 = timers s \<and> closed s1 0 \<and> timers s2 = [] \<and>
     frames_on 0 s2 = frames_on 0 s1 \<and> length (frames_on 0 s1) = 1 \<and>
     v_run rt0 [VMount, VOpen, VBridgeTick 500] (v_init held_pad) = Some v \<and> length (v_sent v) = 1 \<and>
     v_step rt0 VClose v = Some v1 \<and>
     v_run rt0 [VPingTick 600 600, VPingTick 1100 1100, VContext held_pad, VPingTick 1600 1600] v1 =
       Some v2 \<and>
     \<not> v_bridge v1 \<and> \<not> v_bridge v2 \<and> v_sent v2 = v_sent v1"
proof -
  let ?es = "[Mount, SockOpen 0 100 ''0.k3j9x2mq1f'' 100 100 (1 / 2)]"
  let ?rest = "[PingTick 1 600 600, SendGamepadState 700 (JObj [(''speed'', JNum 1)]), SockClose 0]"
  let ?ves = "[VMount, VOpen, VBridgeTick 500]"
  let ?vrest = "[VPingTick 600 600, VPingTick 1100 1100, VContext held_pad, VPingTick 1600 1600]"
  obtain s where s: "run rt0 ?es init = Some s" and e: "effect_ws s = Some 0"
    and f: "length (frames_on 0 s) = 1"
    by (simp add: sample_defs sock_defs effect_defs handler_defs frames_on_def)
  obtain s1 where s1: "step rt0 Disconnect s = Some s1"
    by simp
  have r1: "run rt0 (?es @ [Disconnect]) init = Some s1"
    unfolding run_append s using s1 by simp
  obtain s2 where s2': "run rt0 ((?es @ [Disconnect]) @ ?rest) init = Some s2" and t2: "timers s2 = []"
    by (simp add: sample_defs sock_defs effect_defs handler_defs sendGamepadState_def)
  have s2: "run rt0 ?rest s1 = Some s2"
    using s2' r1 unfolding run_append [of rt0 "?es @ [Disconnect]"] by simp
  obtain v where v: "v_run rt0 ?ves (v_init held_pad) = Some v" and n: "length (v_sent v) = 1"
    and o: "v_ws v = Some OPEN"
    by (simp add: view_defs v_init_def held_pad_def)
  obtain v1 where v1: "v_step rt0 VClose v = Some v1"
    using o by simp
  have q1: "v_run rt0 (?ves @ [VClose]) (v_init held_pad) = Some v1"
    unfolding v_run_append v using v1 by simp
  obtain v2 where v2': "v_run rt0 ((?ves @ [VClose]) @ ?vrest) (v_init held_pad) = Some v2"
    by (simp add: view_defs v_init_def held_pad_def)
  have v2: "v_run rt0 ?vrest v1 = Some v2"
    using v2' q1 unfolding v_run_append [of rt0 "?ves @ [VClose]"] by simp
  note t = no_frames_after_disconnect [OF s v, where w = 0 and ?s1.0 = s1 and ?s2.0 = s2
      and rest = ?rest and ?v1.0 = v1 and ?v2.0 = v2 and vrest = ?vrest]
  have "timers s1 = timers s \<and> closed s1 0 \<and> frames_on 0 s2 = frames_on 0 s1"
    using t e s1 s2 by blast
  moreover have "\<not> v_bridge v1 \<and> \<not> v_bridge v2 \<and> v_sent v2 = v_sent v1"
    using t v1 v2 by blast
  moreover have "length (frames_on 0 s1) = 1"
    using s1 f by (auto simp add: disconnect_def split: option.splits)
  ultimately show ?thesis
    using s e s1 s2 t2 v n v1 v2 by blast
qed


end
